theory Spec2Isabelle
  imports Main "HOL-Library.Word"
begin

section \<open>The data model of the mapping (src/lib/server/AtviseFile.js)\<close>

text \<open>
  \<^verbatim>\<open>DataType\<close> is node-opcua's enumeration of the built-in OPC UA types, with the numbers
  0 to 25 in this order. The source prints an item (\<^verbatim>\<open>toString()\<close> gives its name), reads
  the keys of the enumeration object (\<^verbatim>\<open>Object.keys(DataType)\<close>) and reads a property
  of it by key (\<^verbatim>\<open>DataType[key]\<close>); the object itself is described further below.
\<close>

datatype DataType =
    Null | Boolean | SByte | Byte | Int16 | UInt16 | Int32 | UInt32 | Int64 | UInt64
  | Float | Double | String | DateTime | Guid | ByteString | XmlElement | NodeId
  | ExpandedNodeId | StatusCode | QualifiedName | LocalizedText | ExtensionObject
  | DataValue | Variant | DiagnosticInfo

datatype VariantArrayType = Scalar | Array | Matrix

datatype error =
    NoValue      \<comment> \<open>\<^verbatim>\<open>new Error('no value')\<close> of \<^verbatim>\<open>fromReadResult\<close>\<close>
  | TypeError    \<comment> \<open>the runtime's TypeError: a method missing on a value, a property read of
                    \<^verbatim>\<open>null\<close> or \<^verbatim>\<open>undefined\<close>\<close>
  | SyntaxError  \<comment> \<open>what \<^verbatim>\<open>JSON.parse\<close> throws\<close>
  | InvalidDirection   \<comment> \<open>a direction that is none of the two\<close>
  | NoDirection   \<comment> \<open>a stage run before it was given a direction\<close>
  | NotOverridden   \<comment> \<open>a transform method left as the base class has it\<close>

text \<open>
  The values a node can hold, as the JavaScript runtime represents them: \<^verbatim>\<open>null\<close>,
  booleans, numbers whose value is an integer, strings, \<^verbatim>\<open>Date\<close> objects (a time value in
  milliseconds, or the invalid date), \<^verbatim>\<open>Buffer\<close>s, arrays, and objects of library classes
  of which only the text printed by their \<^verbatim>\<open>toString()\<close> is kept. Numbers with a fraction
  are not described. Strings and buffers are both byte sequences: a string stands for its
  UTF-8 encoding, so that \<^verbatim>\<open>Buffer.from(string)\<close> and \<^verbatim>\<open>buffer.toString()\<close> are the
  identity.
\<close>

datatype jsvalue =
    JNull
  | JBoolean bool
  | JNumber int
  | JString string
  | JDate int
  | JInvalidDate
  | JBuffer string
  | JArray "jsvalue list"
  | JObject string

text \<open>
  What the source takes from the runtime and from node-opcua, and what this theory does
  not define itself: the JSON codec outside the arrays of integers, \<^verbatim>\<open>resolveNodeId\<close>,
  the text of a date, \<^verbatim>\<open>new Buffer(x, 'binary')\<close> for an \<open>x\<close> that is not already a buffer,
  the text of a number beyond \<open>2\<^sup>5\<^sup>3\<close> in size (where not every integer is a number,
  and the digits printed are the shortest that identify the number), and the conversions
  between UTC and the local time of the host's time zone.
\<close>

record runtime =
  JSON_stringify_other :: "jsvalue \<Rightarrow> string"
  JSON_parse_other :: "string \<Rightarrow> error + jsvalue"
  resolveNodeId :: "string \<Rightarrow> error + jsvalue"
  Date_toString :: "int \<Rightarrow> string"
  Buffer_binary :: "jsvalue \<Rightarrow> error + string"
  Number_toString_other :: "int \<Rightarrow> string"
  LocalTime :: "int \<Rightarrow> int"
  UTC :: "int \<Rightarrow> int"

subsection \<open>Strings\<close>

text \<open>\<^verbatim>\<open>s.split(sep)\<close> for a separator of one character.\<close>

fun String_split :: "char \<Rightarrow> string \<Rightarrow> string list" where
  "String_split sep [] = [[]]"
| "String_split sep (c # cs) =
     (if c = sep then [] # String_split sep cs
      else case String_split sep cs of x # xs \<Rightarrow> (c # x) # xs | [] \<Rightarrow> [[c]])"

text \<open>\<^verbatim>\<open>s.split(sep)[0]\<close> for a separator that is not empty: the text before the first
  occurrence of \<open>sep\<close>, all of \<open>s\<close> if there is none.\<close>

fun String_split_first :: "string \<Rightarrow> string \<Rightarrow> string" where
  "String_split_first sep [] = []"
| "String_split_first sep (c # cs) =
     (if take (length sep) (c # cs) = sep then [] else c # String_split_first sep cs)"

text \<open>\<^verbatim>\<open>xs.join(sep)\<close> on strings.\<close>

fun join :: "string \<Rightarrow> string list \<Rightarrow> string" where
  "join sep [] = []"
| "join sep [x] = x"
| "join sep (x # y # ys) = x @ sep @ join sep (y # ys)"

definition toLowerCase :: "string \<Rightarrow> string" where
  "toLowerCase s =
     map (\<lambda>c. case map_of (zip ''ABCDEFGHIJKLMNOPQRSTUVWXYZ'' ''abcdefghijklmnopqrstuvwxyz'') c of
                 Some l \<Rightarrow> l | None \<Rightarrow> c) s"

text \<open>
  The white space of the language (\<^verbatim>\<open>WhiteSpace\<close> and \<^verbatim>\<open>LineTerminator\<close>), which
  \<^verbatim>\<open>trim()\<close> strips and \<^verbatim>\<open>parseInt\<close> skips, as UTF-8: the characters U+0009 to U+000D
  and U+0020, then U+00A0, U+1680, U+2000 to U+200A, U+2028, U+2029, U+202F, U+205F,
  U+3000 and U+FEFF.
\<close>

definition whiteSpace :: "string list" where
  "whiteSpace =
     [[CHR 0x09], [CHR 0x0A], [CHR 0x0B], [CHR 0x0C], [CHR 0x0D], [CHR 0x20],
      [CHR 0xC2, CHR 0xA0], [CHR 0xE1, CHR 0x9A, CHR 0x80],
      [CHR 0xE2, CHR 0x80, CHR 0x80], [CHR 0xE2, CHR 0x80, CHR 0x81],
      [CHR 0xE2, CHR 0x80, CHR 0x82], [CHR 0xE2, CHR 0x80, CHR 0x83],
      [CHR 0xE2, CHR 0x80, CHR 0x84], [CHR 0xE2, CHR 0x80, CHR 0x85],
      [CHR 0xE2, CHR 0x80, CHR 0x86], [CHR 0xE2, CHR 0x80, CHR 0x87],
      [CHR 0xE2, CHR 0x80, CHR 0x88], [CHR 0xE2, CHR 0x80, CHR 0x89],
      [CHR 0xE2, CHR 0x80, CHR 0x8A], [CHR 0xE2, CHR 0x80, CHR 0xA8],
      [CHR 0xE2, CHR 0x80, CHR 0xA9], [CHR 0xE2, CHR 0x80, CHR 0xAF],
      [CHR 0xE2, CHR 0x81, CHR 0x9F], [CHR 0xE3, CHR 0x80, CHR 0x80],
      [CHR 0xEF, CHR 0xBB, CHR 0xBF]]"

text \<open>The first of the given words that the string starts with.\<close>

definition matchingPrefix :: "string list \<Rightarrow> string \<Rightarrow> string option" where
  "matchingPrefix ws s = find (\<lambda>w. w \<noteq> [] \<and> take (length w) s = w) ws"

function stripLeading :: "string list \<Rightarrow> string \<Rightarrow> string" where
  "stripLeading ws s =
     (case matchingPrefix ws s of
        None \<Rightarrow> s
      | Some w \<Rightarrow> stripLeading ws (drop (length w) s))"
  by pat_completeness auto
termination
proof (relation "measure (\<lambda>(ws, s). length s)")
  show "wf (measure (\<lambda>(ws, s). length s))" by simp
next
  fix ws :: "string list" and s w :: string
  assume "matchingPrefix ws s = Some w"
  then have w: "w \<noteq> []" "take (length w) s = w"
    by (auto simp: matchingPrefix_def find_Some_iff)
  then have "length (take (length w) s) = length w" by simp
  then have "length w \<le> length s" by simp
  moreover obtain n where "length w = Suc n" using w(1) by (cases w) auto
  ultimately have "length s - length w < length s" by arith
  then show "((ws, drop (length w) s), (ws, s)) \<in> measure (\<lambda>(ws, s). length s)"
    by simp
qed

declare stripLeading.simps [simp del]

definition trimStart :: "string \<Rightarrow> string" where
  "trimStart s = stripLeading whiteSpace s"

definition trim :: "string \<Rightarrow> string" where
  "trim s = rev (stripLeading (map rev whiteSpace) (rev (trimStart s)))"

text \<open>The bytes with which the encoding of a white space character starts, and those
  with which one ends.\<close>

definition startsWhiteSpace :: "char \<Rightarrow> bool" where
  "startsWhiteSpace c = (c \<in> set (map hd whiteSpace))"

definition endsWhiteSpace :: "char \<Rightarrow> bool" where
  "endsWhiteSpace c = (c \<in> set (map last whiteSpace))"

subsection \<open>Numbers as text\<close>

definition decimalDigits :: string where
  "decimalDigits = ''0123456789''"

definition digitChar :: "nat \<Rightarrow> char" where
  "digitChar d = decimalDigits ! d"

definition isDigit :: "char \<Rightarrow> bool" where
  "isDigit c = (c \<in> set decimalDigits)"

definition digitVal :: "char \<Rightarrow> nat" where
  "digitVal c = length (takeWhile (\<lambda>d. d \<noteq> c) decimalDigits)"

fun nat_toString :: "nat \<Rightarrow> string" where
  "nat_toString n =
     (if n < 10 then [digitChar n] else nat_toString (n div 10) @ [digitChar (n mod 10)])"

declare nat_toString.simps [simp del]

text \<open>An integer in decimal digits, with a minus sign when negative.\<close>

definition decimal :: "int \<Rightarrow> string" where
  "decimal i = (if i < 0 then CHR ''-'' # nat_toString (nat (- i)) else nat_toString (nat i))"

text \<open>
  The integers up to \<open>2\<^sup>5\<^sup>3\<close> in size: each of them is a number of the runtime, and
  \<^verbatim>\<open>Number.prototype.toString()\<close> prints it with all its decimal digits.
\<close>

definition safeInteger :: "int \<Rightarrow> bool" where
  "safeInteger n = (\<bar>n\<bar> \<le> 9007199254740992)"

definition number_toString :: "runtime \<Rightarrow> int \<Rightarrow> string" where
  "number_toString rt i = (if safeInteger i then decimal i else Number_toString_other rt i)"

fun parseDigits :: "nat \<Rightarrow> string \<Rightarrow> nat" where
  "parseDigits acc [] = acc"
| "parseDigits acc (c # cs) = (if isDigit c then parseDigits (acc * 10 + digitVal c) cs else acc)"

text \<open>
  \<^verbatim>\<open>Number.parseInt(s, 10)\<close>: leading white space is skipped, a sign is read, then the
  longest run of digits; \<open>None\<close> is \<^verbatim>\<open>NaN\<close>.
\<close>

definition parseInt :: "string \<Rightarrow> int option" where
  "parseInt s =
     (let S = trimStart s;
          neg = (S \<noteq> [] \<and> hd S = CHR ''-'');
          R = (if S \<noteq> [] \<and> (hd S = CHR ''-'' \<or> hd S = CHR ''+'') then tl S else S)
      in if R = [] \<or> \<not> isDigit (hd R) then None
         else Some (if neg then - int (parseDigits 0 R) else int (parseDigits 0 R)))"

text \<open>
  \<^verbatim>\<open>new Date(number)\<close>: a time value beyond \<open>8.64 \<times> 10\<^sup>1\<^sup>5\<close> ms, or \<^verbatim>\<open>NaN\<close>, gives the
  invalid date.
\<close>

definition newDate :: "int option \<Rightarrow> jsvalue" where
  "newDate t =
     (case t of None \<Rightarrow> JInvalidDate
      | Some n \<Rightarrow> if \<bar>n\<bar> \<le> 8640000000000000 then JDate n else JInvalidDate)"

subsection \<open>JSON for arrays of integers\<close>

text \<open>
  The integers of an array of numbers that is not empty, each within \<open>2\<^sup>5\<^sup>3\<close> in size;
  \<open>None\<close> for any other value.
\<close>

fun integerOf :: "jsvalue \<Rightarrow> int option" where
  "integerOf (JNumber n) = (if safeInteger n then Some n else None)"
| "integerOf _ = None"

fun integersOf :: "jsvalue \<Rightarrow> int list option" where
  "integersOf (JArray xs) =
     (if xs \<noteq> [] \<and> list_all (\<lambda>x. integerOf x \<noteq> None) xs
      then Some (map (\<lambda>x. case integerOf x of Some n \<Rightarrow> n | None \<Rightarrow> 0) xs) else None)"
| "integersOf _ = None"

text \<open>
  \<^verbatim>\<open>JSON.stringify\<close>: an array of such integers is written as its decimal numbers
  between brackets, separated by commas; every other value is left to the runtime.
\<close>

definition JSON_stringify :: "runtime \<Rightarrow> jsvalue \<Rightarrow> string" where
  "JSON_stringify rt v =
     (case integersOf v of
        Some ns \<Rightarrow> ''['' @ join '','' (map decimal ns) @ '']''
      | None \<Rightarrow> JSON_stringify_other rt v)"

text \<open>A text that is the decimal form of an integer within \<open>2\<^sup>5\<^sup>3\<close>, and nothing else.\<close>

definition isDecimalText :: "string \<Rightarrow> bool" where
  "isDecimalText p =
     (case parseInt p of Some n \<Rightarrow> safeInteger n \<and> decimal n = p | None \<Rightarrow> False)"

definition integerArrayText :: "string \<Rightarrow> int list option" where
  "integerArrayText s =
     (case s of
        [] \<Rightarrow> None
      | c # cs \<Rightarrow>
          if c = CHR ''['' \<and> cs \<noteq> [] \<and> last cs = CHR '']''
          then let pieces = String_split (CHR '','') (butlast cs)
               in if list_all isDecimalText pieces
                  then Some (map (\<lambda>p. case parseInt p of Some n \<Rightarrow> n | None \<Rightarrow> 0) pieces)
                  else None
          else None)"

text \<open>
  \<^verbatim>\<open>JSON.parse\<close>: a text of that form is the array of its numbers; every other text is
  left to the runtime (which throws a SyntaxError on what is not JSON).
\<close>

definition JSON_parse :: "runtime \<Rightarrow> string \<Rightarrow> error + jsvalue" where
  "JSON_parse rt s =
     (case integerArrayText s of
        Some ns \<Rightarrow> Inr (JArray (map JNumber ns))
      | None \<Rightarrow> JSON_parse_other rt s)"

subsection \<open>Encoding and decoding node values\<close>

text \<open>
  \<^verbatim>\<open>x.toString()\<close> for a value that is not \<^verbatim>\<open>null\<close>. An array prints its elements joined
  by commas, a \<^verbatim>\<open>null\<close> element as the empty text (hence the equation for \<open>JNull\<close>,
  which is used for array elements only).
\<close>

fun toString :: "runtime \<Rightarrow> jsvalue \<Rightarrow> string" where
  "toString rt JNull = []"
| "toString rt (JBoolean b) = (if b then ''true'' else ''false'')"
| "toString rt (JNumber n) = number_toString rt n"
| "toString rt (JString s) = s"
| "toString rt (JDate t) = Date_toString rt t"
| "toString rt JInvalidDate = ''Invalid Date''"
| "toString rt (JBuffer b) = b"
| "toString rt (JArray xs) = join '','' (map (toString rt) xs)"
| "toString rt (JObject s) = s"

text \<open>
  The table \<^verbatim>\<open>Decoder\<close>: a decoder is applied to \<^verbatim>\<open>buffer.toString()\<close>.
\<close>

fun Decoder :: "runtime \<Rightarrow> DataType \<Rightarrow> (string \<Rightarrow> error + jsvalue) option" where
  "Decoder rt Boolean = Some (\<lambda>stringValue. Inr (JBoolean (stringValue = ''true'')))"
| "Decoder rt String = Some (\<lambda>stringValue. Inr (JString stringValue))"
| "Decoder rt NodeId = Some (\<lambda>stringValue. resolveNodeId rt stringValue)"
| "Decoder rt DateTime = Some (\<lambda>stringValue. Inr (newDate (parseInt stringValue)))"
| "Decoder rt UInt64 = Some (\<lambda>stringValue. JSON_parse rt stringValue)"
| "Decoder rt Int64 = Some (\<lambda>stringValue. JSON_parse rt stringValue)"
| "Decoder rt _ = None"

text \<open>
  The table \<^verbatim>\<open>Encoder\<close>. \<^verbatim>\<open>date.getTime()\<close> exists on dates only (\<^verbatim>\<open>NaN\<close> for the
  invalid date); on any other value the call is a TypeError.
\<close>

fun getTime_toString :: "runtime \<Rightarrow> jsvalue \<Rightarrow> error + string" where
  "getTime_toString rt (JDate t) = Inr (number_toString rt t)"
| "getTime_toString rt JInvalidDate = Inr ''NaN''"
| "getTime_toString rt _ = Inl TypeError"

fun newBuffer_binary :: "runtime \<Rightarrow> jsvalue \<Rightarrow> error + string" where
  "newBuffer_binary rt (JBuffer b) = Inr b"
| "newBuffer_binary rt v = Buffer_binary rt v"

fun Encoder :: "runtime \<Rightarrow> DataType \<Rightarrow> (jsvalue \<Rightarrow> error + string) option" where
  "Encoder rt DateTime = Some (\<lambda>date. getTime_toString rt date)"
| "Encoder rt UInt64 = Some (\<lambda>uInt32Array. Inr (JSON_stringify rt uInt32Array))"
| "Encoder rt Int64 = Some (\<lambda>int32Array. Inr (JSON_stringify rt int32Array))"
| "Encoder rt ByteString = Some (\<lambda>binaryArray. newBuffer_binary rt binaryArray)"
| "Encoder rt _ = None"

text \<open>A node value as read from the server: node-opcua's \<^verbatim>\<open>Variant\<close>.\<close>

record Variant =
  value' :: jsvalue   \<comment> \<open>\<^verbatim>\<open>value\<close>\<close>
  S_dataType :: DataType   \<comment> \<open>\<^verbatim>\<open>$dataType\<close>\<close>
  S_arrayType :: VariantArrayType   \<comment> \<open>\<^verbatim>\<open>$arrayType\<close>\<close>

definition encodeValue :: "runtime \<Rightarrow> Variant \<Rightarrow> DataType \<Rightarrow> error + string" where
  "encodeValue rt v dt =
     (if value' v = JNull then Inr []
      else case Encoder rt dt of
             Some encoder \<Rightarrow> encoder (value' v)
           | None \<Rightarrow> Inr (trim (toString rt (value' v))))"

text \<open>The contents of a file are a buffer or \<^verbatim>\<open>null\<close> (\<open>None\<close>).\<close>

definition decodeValue :: "runtime \<Rightarrow> string option \<Rightarrow> DataType \<Rightarrow> error + jsvalue" where
  "decodeValue rt buffer dt =
     (case buffer of
        None \<Rightarrow> Inr JNull
      | Some b \<Rightarrow>
          if length b = 0 then Inr JNull
          else case Decoder rt dt of
                 Some decoder \<Rightarrow> decoder b
               | None \<Rightarrow> Inr (JBuffer b))"

subsection \<open>Names of data types, objects used as tables\<close>

fun DataType_toString :: "DataType \<Rightarrow> string" where
  "DataType_toString Null = ''Null''"
| "DataType_toString Boolean = ''Boolean''"
| "DataType_toString SByte = ''SByte''"
| "DataType_toString Byte = ''Byte''"
| "DataType_toString Int16 = ''Int16''"
| "DataType_toString UInt16 = ''UInt16''"
| "DataType_toString Int32 = ''Int32''"
| "DataType_toString UInt32 = ''UInt32''"
| "DataType_toString Int64 = ''Int64''"
| "DataType_toString UInt64 = ''UInt64''"
| "DataType_toString Float = ''Float''"
| "DataType_toString Double = ''Double''"
| "DataType_toString String = ''String''"
| "DataType_toString DateTime = ''DateTime''"
| "DataType_toString Guid = ''Guid''"
| "DataType_toString ByteString = ''ByteString''"
| "DataType_toString XmlElement = ''XmlElement''"
| "DataType_toString NodeId = ''NodeId''"
| "DataType_toString ExpandedNodeId = ''ExpandedNodeId''"
| "DataType_toString StatusCode = ''StatusCode''"
| "DataType_toString QualifiedName = ''QualifiedName''"
| "DataType_toString LocalizedText = ''LocalizedText''"
| "DataType_toString ExtensionObject = ''ExtensionObject''"
| "DataType_toString DataValue = ''DataValue''"
| "DataType_toString Variant = ''Variant''"
| "DataType_toString DiagnosticInfo = ''DiagnosticInfo''"

definition DataType_items :: "DataType list" where
  "DataType_items =
     [Null, Boolean, SByte, Byte, Int16, UInt16, Int32, UInt32, Int64, UInt64, Float, Double,
      String, DateTime, Guid, ByteString, XmlElement, NodeId, ExpandedNodeId, StatusCode,
      QualifiedName, LocalizedText, ExtensionObject, DataValue, Variant, DiagnosticInfo]"

text \<open>The number of an item: its place in the enumeration, from 0.\<close>

definition DataType_value :: "DataType \<Rightarrow> nat" where
  "DataType_value d = length (takeWhile (\<lambda>x. x \<noteq> d) DataType_items)"

text \<open>
  An object used as a table is the list of its assignments, in order. Reading a
  property finds the last value assigned to the key; a key that was never assigned but
  names a member of \<^verbatim>\<open>Object.prototype\<close> reads as that member (a function or object,
  which is truthy and has none of the fields of a table entry); any other key reads as
  \<^verbatim>\<open>undefined\<close>.
\<close>

datatype 'a property = Own 'a | Inherited | Undefined

definition objectPrototypeKeys :: "string list" where
  "objectPrototypeKeys =
     [''constructor'', ''__defineGetter__'', ''__defineSetter__'', ''hasOwnProperty'',
      ''__lookupGetter__'', ''__lookupSetter__'', ''isPrototypeOf'', ''propertyIsEnumerable'',
      ''toString'', ''valueOf'', ''__proto__'', ''toLocaleString'']"

definition getProperty :: "(string \<times> 'a) list \<Rightarrow> string \<Rightarrow> 'a property" where
  "getProperty obj key =
     (case map_of (rev obj) key of
        Some v \<Rightarrow> Own v
      | None \<Rightarrow> if key \<in> set objectPrototypeKeys then Inherited else Undefined)"

text \<open>
  \<^verbatim>\<open>Object.keys\<close>: the keys that are array indices first, in ascending order, then the
  other keys in the order of their first assignment.
\<close>

definition isArrayIndex :: "string \<Rightarrow> bool" where
  "isArrayIndex k =
     (k \<noteq> [] \<and> (\<forall>c \<in> set k. isDigit c) \<and> (k = ''0'' \<or> hd k \<noteq> CHR ''0'')
      \<and> int (parseDigits 0 k) < 4294967295)"

definition Object_keys :: "(string \<times> 'a) list \<Rightarrow> string list" where
  "Object_keys obj =
     (let ks = rev (remdups (rev (map fst obj)))
      in sort_key (parseDigits 0) (filter isArrayIndex ks) @ filter (\<lambda>k. \<not> isArrayIndex k) ks)"

fun indexOf :: "'a list \<Rightarrow> 'a \<Rightarrow> nat option" where
  "indexOf [] x = None"
| "indexOf (y # ys) x = (if y = x then Some 0 else map_option Suc (indexOf ys x))"

text \<open>
  The object \<^verbatim>\<open>DataType\<close> is an instance of node-opcua's class \<^verbatim>\<open>Enum\<close> (version 0.0.60,
  the one the project pins). Its constructor first sets the property \<^verbatim>\<open>enums\<close> to an array,
  then for every item, in the order of the enumeration, assigns the item to the property of
  its name and to the property of its number and appends it to the array, and last sets the
  property \<^verbatim>\<open>_is_flaggable\<close>, which is \<^verbatim>\<open>false\<close> for this enumeration. A property of the
  object is therefore an item, the array of the items, or a boolean.
\<close>

datatype enumProperty = EnumItem DataType | EnumItems | EnumFlag bool

definition DataType_object :: "(string \<times> enumProperty) list" where
  "DataType_object =
     (''enums'', EnumItems) #
     concat (map (\<lambda>d. [(DataType_toString d, EnumItem d),
                         (nat_toString (DataType_value d), EnumItem d)]) DataType_items)
     @ [(''_is_flaggable'', EnumFlag False)]"

text \<open>\<^verbatim>\<open>DataType[key]\<close>, which the source reads at keys of the object itself only;
  \<open>None\<close> is \<^verbatim>\<open>undefined\<close>.\<close>

definition DataType_get :: "string \<Rightarrow> enumProperty option" where
  "DataType_get key = (case getProperty DataType_object key of Own v \<Rightarrow> Some v | _ \<Rightarrow> None)"

text \<open>\<^verbatim>\<open>const types = Object.keys(DataType)\<close> and
  \<^verbatim>\<open>const typeExtensions = types.map(t => t.toLowerCase())\<close>: the numbers 0 to 25, then
  \<^verbatim>\<open>enums\<close>, the 26 names and \<^verbatim>\<open>_is_flaggable\<close>.\<close>

definition types :: "string list" where
  "types = Object_keys DataType_object"

definition typeExtensions :: "string list" where
  "typeExtensions = map toLowerCase types"

text \<open>What \<^verbatim>\<open>!x\<close> tests on a property that may be undefined: items and arrays are
  objects, which are truthy.\<close>

fun isFalsy :: "enumProperty option \<Rightarrow> bool" where
  "isFalsy None = True"
| "isFalsy (Some (EnumFlag b)) = (\<not> b)"
| "isFalsy (Some _) = False"

subsection \<open>Node ids, type definitions and the table of atvise types\<close>

datatype NodeIdType = NUMERIC | STRING | GUID | BYTESTRING

datatype idValue = NumId "32 word" | StrId string

text \<open>A type definition is a node id: \<^verbatim>\<open>new NodeId(type, value, namespace)\<close>. A numeric
  value is an unsigned number of 32 bits.\<close>

record NodeIdObject =
  identifierType :: NodeIdType
  idvalue :: idValue    \<comment> \<open>\<^verbatim>\<open>value\<close>\<close>
  namespace :: nat

text \<open>A value used as a property key is converted to a string.\<close>

fun propertyKey :: "idValue \<Rightarrow> string" where
  "propertyKey (NumId n) = nat_toString (unat n)"
| "propertyKey (StrId s) = s"

definition VariableTypeDefinition :: NodeIdObject where
  "VariableTypeDefinition = \<lparr>identifierType = NUMERIC, idvalue = NumId 62, namespace = 0\<rparr>"

definition PropertyTypeDefinition :: NodeIdObject where
  "PropertyTypeDefinition = \<lparr>identifierType = NUMERIC, idvalue = NumId 68, namespace = 0\<rparr>"

text \<open>
  Modelled from the spec: the class \<^verbatim>\<open>NodeId\<close> is not among the sources, so what
  \<^verbatim>\<open>new NodeId('VariableTypes.ATVISE.Resource.OctetStream')\<close> builds from a string alone is
  not known; section 4.2 calls it the generic resource type. It is taken to be the string
  node id of that value in the server's namespace 1.
\<close>

definition OctetStreamTypeDefinition :: NodeIdObject where
  "OctetStreamTypeDefinition =
     \<lparr>identifierType = STRING, idvalue = StrId ''VariableTypes.ATVISE.Resource.OctetStream'',
      namespace = 1\<rparr>"

text \<open>
  An entry of the table \<^verbatim>\<open>AtviseTypes\<close> (imported from \<^verbatim>\<open>./Types\<close>, which is not among the
  sources): the functions below take the table as their first argument. A missing
  \<^verbatim>\<open>fileExtension\<close> is \<open>None\<close>, a missing \<^verbatim>\<open>keepExtension\<close> is \<open>False\<close>.
\<close>

record AtviseType =
  typeDefinition :: NodeIdObject
  identifier' :: string   \<comment> \<open>\<^verbatim>\<open>identifier\<close>\<close>
  dataType :: DataType
  fileExtension :: "string option"
  keepExtension :: bool

definition AtviseTypesByValue :: "AtviseType list \<Rightarrow> (string \<times> AtviseType) list" where
  "AtviseTypesByValue AtviseTypes =
     map (\<lambda>type. (propertyKey (idvalue (typeDefinition type)), type)) AtviseTypes"

definition AtviseTypesByIdentifier :: "AtviseType list \<Rightarrow> (string \<times> AtviseType) list" where
  "AtviseTypesByIdentifier AtviseTypes = map (\<lambda>type. (identifier' type, type)) AtviseTypes"

definition ExtensionForDataType :: "(string \<times> string) list" where
  "ExtensionForDataType =
     [(DataType_toString Boolean, ''bool''), (DataType_toString XmlElement, ''xml'')]"

definition reverseObject :: "(string \<times> string) list \<Rightarrow> (string \<times> string) list" where
  "reverseObject obj =
     map (\<lambda>key. (case getProperty obj key of Own v \<Rightarrow> v | _ \<Rightarrow> [], key)) (Object_keys obj)"

definition DataTypeForExtension :: "(string \<times> string) list" where
  "DataTypeForExtension = reverseObject ExtensionForDataType"

text \<open>\<^verbatim>\<open>ExtensionForDataType[dataType] || dataType.toString().toLowerCase()\<close>; the empty
  string is falsy, and no item name is a member of \<^verbatim>\<open>Object.prototype\<close>.\<close>

definition extensionForDataType :: "DataType \<Rightarrow> string" where
  "extensionForDataType dt =
     (case getProperty ExtensionForDataType (DataType_toString dt) of
        Own e \<Rightarrow> if e \<noteq> [] then e else toLowerCase (DataType_toString dt)
      | _ \<Rightarrow> toLowerCase (DataType_toString dt))"

subsection \<open>Storage paths\<close>

text \<open>
  Modelled from the spec: the class \<^verbatim>\<open>NodeId\<close> with its getter \<^verbatim>\<open>filePath\<close> and its
  \<^verbatim>\<open>fromFilePath\<close> is not among the sources. Section 4.1 makes the two mutual inverses
  that map the components of an identifier to path segments, and section 8 pairs the node
  id \<^verbatim>\<open>AGENT.DISPLAYS.Main\<close> with the path \<^verbatim>\<open>AGENT/DISPLAYS/Main\<close>: the separator of
  components becomes the separator of segments. The escaping of reserved characters is
  left open by section 4.1 and is not modelled. A node id is given by its text.
\<close>

definition filePath :: "string \<Rightarrow> string" where
  "filePath nodeId = map (\<lambda>c. if c = CHR ''.'' then CHR ''/'' else c) nodeId"

definition fromFilePath :: "string \<Rightarrow> string" where
  "fromFilePath path = map (\<lambda>c. if c = CHR ''/'' then CHR ''.'' else c) path"

text \<open>
  Date objects live in a heap, addressed by reference: the heap gives the time value of
  each, in milliseconds of UTC; the time value of an invalid date is \<^verbatim>\<open>NaN\<close>, which is
  \<open>None\<close>.
\<close>

type_synonym heap = "nat \<Rightarrow> int option"

record ReadResult =
  nodeId :: string
  rr_value :: "Variant option"    \<comment> \<open>\<^verbatim>\<open>value\<close>, which may be missing\<close>
  referenceDescription_typeDefinition :: NodeIdObject
  mtime :: "nat option"    \<comment> \<open>a reference to a date, or missing\<close>

text \<open>
  A mapped file. Of the vinyl file it extends, the model keeps what the getters
  \<^verbatim>\<open>relative\<close> and \<^verbatim>\<open>dirname\<close> return, the contents and the modification time. The fields
  \<^verbatim>\<open>_dataType\<close>, \<^verbatim>\<open>_arrayType\<close> and \<^verbatim>\<open>_typeDefinition\<close> are \<open>None\<close> while undefined.
\<close>

record AtviseFile =
  relative :: string
  dirname :: string
  contents :: "string option"
  stat_mtime :: "nat option"
  cached_dataType :: "enumProperty option"
  cached_arrayType :: "VariantArrayType option"
  cached_typeDefinition :: "NodeIdObject option"

definition pathForReadResult :: "AtviseType list \<Rightarrow> ReadResult \<Rightarrow> error + string" where
  "pathForReadResult AtviseTypes readResult =
     (case rr_value readResult of
        None \<Rightarrow> Inl TypeError
      | Some v \<Rightarrow>
          let path = filePath (nodeId readResult);
              ext = extensionForDataType (S_dataType v);
              td = referenceDescription_typeDefinition readResult;
              path1 =
                (if idvalue td = idvalue VariableTypeDefinition then path @ ''.'' @ ext
                 else if idvalue td = idvalue PropertyTypeDefinition then path @ ''.prop.'' @ ext
                 else
                   let (ident, fileExt, keepExt) =
                         (case getProperty (AtviseTypesByValue AtviseTypes) (propertyKey (idvalue td)) of
                            Own atType \<Rightarrow> (identifier' atType, fileExtension atType, keepExtension atType)
                          | Inherited \<Rightarrow> (''undefined'', None, False)
                          | Undefined \<Rightarrow> (''var'', None, False))
                   in if \<not> keepExt
                      then path @ ''.'' @ ident @ ''.'' @
                             (case fileExt of Some e \<Rightarrow> if e \<noteq> [] then e else ext | None \<Rightarrow> ext)
                      else path)
          in Inr (if S_arrayType v \<noteq> Scalar
                  then path1 @ ''.'' @ (if S_arrayType v = Array then ''array'' else ''matrix'')
                  else path1))"

text \<open>
  The arithmetic of time values, as the language defines it: the day number and the
  hour, minute, second and millisecond of a time value, and the way back.
\<close>

definition Day :: "int \<Rightarrow> int" where
  "Day t = t div 86400000"

definition HourFromTime :: "int \<Rightarrow> int" where
  "HourFromTime t = (t div 3600000) mod 24"

definition MinFromTime :: "int \<Rightarrow> int" where
  "MinFromTime t = (t div 60000) mod 60"

definition SecFromTime :: "int \<Rightarrow> int" where
  "SecFromTime t = (t div 1000) mod 60"


definition MakeTime :: "int \<Rightarrow> int \<Rightarrow> int \<Rightarrow> int \<Rightarrow> int" where
  "MakeTime hour minute sec ms = hour * 3600000 + minute * 60000 + sec * 1000 + ms"

definition MakeDate :: "int \<Rightarrow> int \<Rightarrow> int" where
  "MakeDate day time = day * 86400000 + time"

definition TimeClip :: "int \<Rightarrow> int option" where
  "TimeClip time = (if \<bar>time\<bar> > 8640000000000000 then None else Some time)"

text \<open>
  \<^verbatim>\<open>date.setMilliseconds(ms)\<close>, on the time value of the date: the time value is taken to
  local time, the milliseconds are replaced there, and the result is taken back to UTC
  and clipped to the range of dates. An invalid date stays invalid.
\<close>

definition setMilliseconds :: "runtime \<Rightarrow> int option \<Rightarrow> int \<Rightarrow> int option" where
  "setMilliseconds rt timeValue ms =
     (case timeValue of
        None \<Rightarrow> None
      | Some tv \<Rightarrow>
          let t = LocalTime rt tv;
              time = MakeTime (HourFromTime t) (MinFromTime t) (SecFromTime t) ms
          in TimeClip (UTC rt (MakeDate (Day t) time)))"






definition normalizeMtime :: "runtime \<Rightarrow> heap \<Rightarrow> nat \<Rightarrow> heap \<times> nat" where
  "normalizeMtime rt h date =
     (let result = date
      in (h(result := setMilliseconds rt (h result) 0), result))"

text \<open>
  node's \<^verbatim>\<open>path.dirname\<close> (POSIX): trailing separators and the last segment are dropped;
  a path without directory part gives \<^verbatim>\<open>.\<close> (or \<^verbatim>\<open>/\<close>).
\<close>

definition path_dirname :: "string \<Rightarrow> string" where
  "path_dirname p =
     (if p = [] then ''.''
      else
        let hasRoot = (hd p = CHR ''/'');
            r = dropWhile (\<lambda>c. c \<noteq> CHR ''/'') (dropWhile (\<lambda>c. c = CHR ''/'') (rev (tl p)));
            endIdx = length r
        in if r = [] then (if hasRoot then ''/'' else ''.'')
           else if hasRoot \<and> endIdx = 1 then ''//''
           else take endIdx p)"

text \<open>
  \<^verbatim>\<open>fromReadResult\<close>. The file is built from a path alone, relative to the working
  directory, so \<^verbatim>\<open>relative\<close> is that path and \<^verbatim>\<open>dirname\<close> its directory part. The
  three metadata fields are handed to the constructor.
\<close>

definition fromReadResult ::
  "runtime \<Rightarrow> AtviseType list \<Rightarrow> heap \<Rightarrow> ReadResult \<Rightarrow> error + AtviseFile \<times> heap" where
  "fromReadResult rt AtviseTypes h readResult =
     (case rr_value readResult of
        None \<Rightarrow> Inl NoValue
      | Some v \<Rightarrow>
          (case pathForReadResult AtviseTypes readResult of
             Inl e \<Rightarrow> Inl e
           | Inr path \<Rightarrow>
               (case encodeValue rt v (S_dataType v) of
                  Inl e \<Rightarrow> Inl e
                | Inr c \<Rightarrow>
                    let (h', m) = (case mtime readResult of
                                     Some d \<Rightarrow> (case normalizeMtime rt h d of (h1, d1) \<Rightarrow> (h1, Some d1))
                                   | None \<Rightarrow> (h, None))
                    in Inr (\<lparr>relative = path, dirname = path_dirname path, contents = Some c,
                             stat_mtime = m,
                             cached_dataType = Some (EnumItem (S_dataType v)),
                             cached_arrayType = Some (S_arrayType v),
                             cached_typeDefinition =
                               Some (referenceDescription_typeDefinition readResult)\<rparr>, h'))))"

subsection \<open>Extension inference\<close>

text \<open>
  \<^verbatim>\<open>s.match(/\.([^/\\]*)$/)\<close>: the leftmost dot after which neither a slash nor a
  backslash follows; the result is the text after that dot (group 1), \<open>None\<close> without a
  match.
\<close>

fun ExtensionRegExp_match :: "string \<Rightarrow> string option" where
  "ExtensionRegExp_match [] = None"
| "ExtensionRegExp_match (c # cs) =
     (if c = CHR ''.'' \<and> (\<forall>d \<in> set cs. d \<noteq> CHR ''/'' \<and> d \<noteq> CHR 0x5C) then Some cs
      else ExtensionRegExp_match cs)"

text \<open>
  The local function \<^verbatim>\<open>ifLastExtensionMatches\<close> works on the list \<^verbatim>\<open>extensions\<close> and on
  the file. On the empty list the last element is \<^verbatim>\<open>undefined\<close>, which none of the four
  tests of \<^verbatim>\<open>_getMetadata\<close> accepts.
\<close>

definition ifLastExtensionMatches ::
  "(string \<Rightarrow> bool) \<Rightarrow> (string \<Rightarrow> AtviseFile \<Rightarrow> AtviseFile) \<Rightarrow> string list \<times> AtviseFile
     \<Rightarrow> string list \<times> AtviseFile" where
  "ifLastExtensionMatches matches fn s =
     (case s of (extensions, file) \<Rightarrow>
        if extensions \<noteq> [] \<and> matches (last extensions)
        then (butlast extensions, fn (last extensions) file)
        else (extensions, file))"

definition complete :: "AtviseFile \<Rightarrow> bool" where
  "complete file = (cached_dataType file \<noteq> None \<and> cached_typeDefinition file \<noteq> None)"

text \<open>
  The body of the loop over \<^verbatim>\<open>Object.keys(AtviseTypesByIdentifier)\<close>, on the state of
  the loop or the error that ended it. Reading \<^verbatim>\<open>type.typeDefinition\<close> is a TypeError when
  \<^verbatim>\<open>type\<close> is \<^verbatim>\<open>undefined\<close>; a member of \<^verbatim>\<open>Object.prototype\<close> has neither of the two
  properties read.
\<close>

definition atviseTypeStep ::
  "AtviseType list \<Rightarrow> string list \<Rightarrow> error + bool \<times> AtviseFile \<Rightarrow> string
     \<Rightarrow> error + bool \<times> AtviseFile" where
  "atviseTypeStep AtviseTypes extensions s ident =
     (case s of
        Inl e \<Rightarrow> Inl e
      | Inr (foundAtType, file) \<Rightarrow>
          if \<not> foundAtType \<and> ident \<in> set extensions
          then (case getProperty (AtviseTypesByIdentifier AtviseTypes) ident of
                  Own type \<Rightarrow>
                    Inr (True, file\<lparr>cached_typeDefinition := Some (typeDefinition type),
                                     cached_dataType := Some (EnumItem (dataType type))\<rparr>)
                | Inherited \<Rightarrow>
                    Inr (True, file\<lparr>cached_typeDefinition := None, cached_dataType := None\<rparr>)
                | Undefined \<Rightarrow> Inl TypeError)
          else Inr (foundAtType, file))"

text \<open>
  \<^verbatim>\<open>_getMetadata\<close>, in the three parts of its body: the list \<^verbatim>\<open>extensions\<close> as it is
  first built (the extensions of the relative path, with the extension of the directory
  name in front for a split file); the four steps that take the array type and the data
  type from the end of that list; the type definition and the two fallbacks.
\<close>

definition initialExtensions :: "AtviseFile \<Rightarrow> string list" where
  "initialExtensions this =
     (let extensions = (case ExtensionRegExp_match (relative this) of
                          Some m1 \<Rightarrow> String_split (CHR ''.'') m1
                        | None \<Rightarrow> []);
          dirnameExts = String_split (CHR ''.'') (dirname this)
      in if length dirnameExts > 1 then last dirnameExts # extensions else extensions)"

definition arrayAndDataTypeSteps :: "AtviseFile \<Rightarrow> string list \<times> AtviseFile" where
  "arrayAndDataTypeSteps this =
     (let s0 = (initialExtensions this, this\<lparr>cached_arrayType := Some Scalar\<rparr>);
          s1 = ifLastExtensionMatches (\<lambda>ext. ext = ''array'')
                 (\<lambda>ext file. file\<lparr>cached_arrayType := Some Array\<rparr>) s0;
          s2 = ifLastExtensionMatches (\<lambda>ext. ext = ''matrix'')
                 (\<lambda>ext file. file\<lparr>cached_arrayType := Some Matrix\<rparr>) s1;
          s3 = ifLastExtensionMatches (\<lambda>ext. ext \<in> set typeExtensions)
                 (\<lambda>ext file. file\<lparr>cached_dataType :=
                    (case indexOf typeExtensions ext of
                       Some i \<Rightarrow> DataType_get (types ! i)
                     | None \<Rightarrow> None)\<rparr>) s2
      in ifLastExtensionMatches
           (\<lambda>ext. case getProperty DataTypeForExtension ext of
                     Own name \<Rightarrow> name \<noteq> [] | Inherited \<Rightarrow> True | Undefined \<Rightarrow> False)
           (\<lambda>ext file. file\<lparr>cached_dataType :=
              (case getProperty DataTypeForExtension ext of
                 Own name \<Rightarrow> DataType_get name
               | _ \<Rightarrow> None)\<rparr>) s3)"

definition getMetadata :: "AtviseType list \<Rightarrow> AtviseFile \<Rightarrow> error + AtviseFile" where
  "getMetadata AtviseTypes this =
     (let s4 = arrayAndDataTypeSteps this;
          s5 = (if length (fst s4) = 0
                then (fst s4, (snd s4)\<lparr>cached_typeDefinition := Some VariableTypeDefinition\<rparr>)
                else s4);
          s6 = ifLastExtensionMatches (\<lambda>ext. ext = ''prop'')
                 (\<lambda>ext file. file\<lparr>cached_typeDefinition := Some PropertyTypeDefinition\<rparr>) s5;
          s7 = (if \<not> complete (snd s6)
                then foldl (atviseTypeStep AtviseTypes (fst s6)) (Inr (False, snd s6))
                       (Object_keys (AtviseTypesByIdentifier AtviseTypes))
                else Inr (False, snd s6))
      in case s7 of
           Inl e \<Rightarrow> Inl e
         | Inr (foundAtType, file7) \<Rightarrow>
             Inr (if \<not> complete file7
                  then file7\<lparr>cached_typeDefinition := Some OctetStreamTypeDefinition,
                              cached_dataType := Some (EnumItem ByteString)\<rparr>
                  else file7))"

text \<open>
  The getters compute the metadata when the field is falsy and keep it in the file; an
  error of \<^verbatim>\<open>_getMetadata\<close> is theirs.
\<close>

definition get_dataType ::
  "AtviseType list \<Rightarrow> AtviseFile \<Rightarrow> error + enumProperty option \<times> AtviseFile" where
  "get_dataType AtviseTypes this =
     (if isFalsy (cached_dataType this)
      then (case getMetadata AtviseTypes this of
              Inl e \<Rightarrow> Inl e
            | Inr file \<Rightarrow> Inr (cached_dataType file, file))
      else Inr (cached_dataType this, this))"

definition get_arrayType ::
  "AtviseType list \<Rightarrow> AtviseFile \<Rightarrow> error + VariantArrayType option \<times> AtviseFile" where
  "get_arrayType AtviseTypes this =
     (if cached_arrayType this = None
      then (case getMetadata AtviseTypes this of
              Inl e \<Rightarrow> Inl e
            | Inr file \<Rightarrow> Inr (cached_arrayType file, file))
      else Inr (cached_arrayType this, this))"

definition get_typeDefinition ::
  "AtviseType list \<Rightarrow> AtviseFile \<Rightarrow> error + NodeIdObject option \<times> AtviseFile" where
  "get_typeDefinition AtviseTypes this =
     (if cached_typeDefinition this = None
      then (case getMetadata AtviseTypes this of
              Inl e \<Rightarrow> Inl e
            | Inr file \<Rightarrow> Inr (cached_typeDefinition file, file))
      else Inr (cached_typeDefinition this, this))"

text \<open>\<^verbatim>\<open>get value()\<close>; a data type that is no item (\<^verbatim>\<open>undefined\<close>, \<^verbatim>\<open>false\<close>, the
  array of the items) has no decoder.\<close>

definition get_value ::
  "runtime \<Rightarrow> AtviseType list \<Rightarrow> AtviseFile \<Rightarrow> error + jsvalue \<times> AtviseFile" where
  "get_value rt AtviseTypes this =
     (case get_dataType AtviseTypes this of
        Inl e \<Rightarrow> Inl e
      | Inr (dt, file) \<Rightarrow>
          (case (case dt of
                   Some (EnumItem d) \<Rightarrow> decodeValue rt (contents file) d
                 | _ \<Rightarrow> (case contents file of
                           None \<Rightarrow> Inr JNull
                         | Some b \<Rightarrow> if length b = 0 then Inr JNull else Inr (JBuffer b))) of
             Inl e \<Rightarrow> Inl e
           | Inr v \<Rightarrow> Inr (v, file)))"

text \<open>\<^verbatim>\<open>get nodeId()\<close>; reading \<^verbatim>\<open>[1]\<close> of a failed match is a TypeError, and so is
  reading \<^verbatim>\<open>value\<close> of a type definition that is undefined.\<close>

definition get_nodeId :: "AtviseType list \<Rightarrow> AtviseFile \<Rightarrow> error + string \<times> AtviseFile" where
  "get_nodeId AtviseTypes this =
     (case get_typeDefinition AtviseTypes this of
        Inl e \<Rightarrow> Inl e
      | Inr (td, file) \<Rightarrow>
          (case td of
             None \<Rightarrow> Inl TypeError
           | Some t \<Rightarrow>
               let idPath = relative file;
                   strip = (case getProperty (AtviseTypesByValue AtviseTypes)
                                   (propertyKey (idvalue t)) of
                              Own atType \<Rightarrow> \<not> keepExtension atType
                            | _ \<Rightarrow> True)
               in if strip
                  then (case ExtensionRegExp_match idPath of
                          None \<Rightarrow> Inl TypeError
                        | Some exts \<Rightarrow>
                            Inr (fromFilePath (String_split_first (''.'' @ exts) idPath), file))
                  else Inr (fromFilePath idPath, file)))"

section \<open>The watch task (src/tasks/push.js, class WatchTask)\<close>

text \<open>
  \<^verbatim>\<open>_lastPull\<close> starts as the number 0 and later holds the date object that
  \<^verbatim>\<open>normalizeMtime\<close> returned; a comparison reads its time value.
\<close>

datatype timestamp = Number int | DateRef nat

fun valueOf :: "heap \<Rightarrow> timestamp \<Rightarrow> int option" where
  "valueOf h (Number n) = Some n"
| "valueOf h (DateRef d) = h d"

text \<open>\<^verbatim>\<open>a > b\<close> on two numbers, which is false when one is \<^verbatim>\<open>NaN\<close>.\<close>

fun greaterThan :: "int option \<Rightarrow> int option \<Rightarrow> bool" where
  "greaterThan (Some a) (Some b) = (a > b)"
| "greaterThan _ _ = False"

record WatchTask =
  pulling :: bool    \<comment> \<open>\<^verbatim>\<open>_pulling\<close>\<close>
  pushing :: bool    \<comment> \<open>\<^verbatim>\<open>_pushing\<close>\<close>
  lastPull :: timestamp    \<comment> \<open>\<^verbatim>\<open>_lastPull\<close>\<close>
  lastPushed :: "string option"    \<comment> \<open>\<^verbatim>\<open>_lastPushed\<close>, \<open>None\<close> for \<^verbatim>\<open>null\<close>\<close>

definition newWatchTask :: WatchTask where
  "newWatchTask = \<lparr>pulling = False, pushing = False, lastPull = Number 0, lastPushed = None\<rparr>"

text \<open>
  A handler either starts a stream (a push or a pull) and resolves later, when the stream
  ends, or resolves its promise at once.
\<close>

datatype outcome = Started | Resolved bool

text \<open>\<^verbatim>\<open>handleFileChange\<close>, up to the start of the push stream; \<open>stats_mtime\<close> is the
  reference of \<^verbatim>\<open>stats.mtime\<close>.\<close>

definition handleFileChange ::
  "runtime \<Rightarrow> heap \<Rightarrow> WatchTask \<Rightarrow> nat \<Rightarrow> heap \<times> WatchTask \<times> outcome" where
  "handleFileChange rt h this stats_mtime =
     (if \<not> pulling this
      then (case normalizeMtime rt h stats_mtime of (h', d) \<Rightarrow>
              if greaterThan (h' d) (valueOf h' (lastPull this))
              then (h', this\<lparr>pushing := True\<rparr>, Started)
              else (h', this, Resolved False))
      else (h, this, Resolved False))"

text \<open>The listeners on the push stream: \<^verbatim>\<open>'data'\<close> with the text of the file's node id,
  and \<^verbatim>\<open>'end'\<close>.\<close>

definition pushStream_data :: "WatchTask \<Rightarrow> string \<Rightarrow> WatchTask" where
  "pushStream_data this file_nodeId = this\<lparr>lastPushed := Some file_nodeId\<rparr>"

definition pushStream_end :: "WatchTask \<Rightarrow> WatchTask \<times> outcome" where
  "pushStream_end this = (this\<lparr>pushing := False\<rparr>, Resolved True)"

text \<open>\<^verbatim>\<open>handleServerChange\<close>, up to the start of the pull stream.\<close>

definition handleServerChange :: "WatchTask \<Rightarrow> ReadResult \<Rightarrow> WatchTask \<times> outcome" where
  "handleServerChange this readResult =
     (if \<not> pushing this
      then if Some (nodeId readResult) \<noteq> lastPushed this
           then (this\<lparr>pulling := True\<rparr>, Started)
           else (this\<lparr>lastPushed := None\<rparr>, Resolved False)
      else (this, Resolved False))"

text \<open>The listener on the \<^verbatim>\<open>'end'\<close> of the pull stream; a read result without
  \<^verbatim>\<open>mtime\<close> makes \<^verbatim>\<open>normalizeMtime\<close> fail.\<close>

definition pullStream_end ::
  "runtime \<Rightarrow> heap \<Rightarrow> WatchTask \<Rightarrow> ReadResult \<Rightarrow> error + heap \<times> WatchTask \<times> outcome" where
  "pullStream_end rt h this readResult =
     (case mtime readResult of
        None \<Rightarrow> Inl TypeError
      | Some m \<Rightarrow>
          (case normalizeMtime rt h m of (h', d) \<Rightarrow>
             Inr (h', this\<lparr>pulling := False, lastPull := DateRef d\<rparr>, Resolved True)))"

section \<open>Composition of transformers\<close>

text \<open>
  Modelled from the spec: \<^verbatim>\<open>Transformer.applyTransformers\<close> lives in
  \<^verbatim>\<open>src/lib/transform/Transformer.js\<close>, which is not among the sources (its test and its
  callers are). Section 4.4: a transformer has the two capabilities transform-from-remote
  and transform-from-filesystem, and a stage consumes one mapped file and produces zero,
  one or many. The composer validates the direction (else \<open>InvalidDirection\<close>); with zero
  transformers it returns an identity pass-through; with one it binds it to the direction
  and returns it; otherwise it chains all transformers into one sequential path, each
  bound to the direction, the configured order reversed for \<open>FromFilesystem\<close>. The test
  calls the remote direction \<^verbatim>\<open>FromDB\<close>. A pipeline is the list of its stages in the order
  in which a file passes through them.
\<close>

datatype TransformDirection = FromDB | FromFilesystem

record 'f Transformer =
  direction :: "TransformDirection option"
  transformFromDB :: "'f \<Rightarrow> error + 'f list"
  transformFromFilesystem :: "'f \<Rightarrow> error + 'f list"

definition withDirection :: "'f Transformer \<Rightarrow> TransformDirection \<Rightarrow> 'f Transformer" where
  "withDirection t d = t\<lparr>direction := Some d\<rparr>"

definition applyTransformers ::
  "'f Transformer list \<Rightarrow> TransformDirection option \<Rightarrow> error + 'f Transformer list" where
  "applyTransformers transformers dir =
     (case dir of
        None \<Rightarrow> Inl InvalidDirection
      | Some d \<Rightarrow>
          if length transformers = 0 then Inr []
          else if length transformers = 1 then Inr [withDirection (hd transformers) d]
          else Inr (map (\<lambda>t. withDirection t d)
                      (if d = FromFilesystem then rev transformers else transformers)))"

text \<open>One stage on one file, by the direction it is bound to.\<close>

definition transform :: "'f Transformer \<Rightarrow> 'f \<Rightarrow> error + 'f list" where
  "transform t file =
     (case direction t of
        None \<Rightarrow> Inl NoDirection
      | Some FromDB \<Rightarrow> transformFromDB t file
      | Some FromFilesystem \<Rightarrow> transformFromFilesystem t file)"

text \<open>One stage on the files that reach it, and a whole pipeline; the first error ends the
  run.\<close>

fun runStage :: "'f Transformer \<Rightarrow> 'f list \<Rightarrow> error + 'f list" where
  "runStage t [] = Inr []"
| "runStage t (file # files) =
     (case transform t file of
        Inl e \<Rightarrow> Inl e
      | Inr out \<Rightarrow> (case runStage t files of Inl e \<Rightarrow> Inl e | Inr rest \<Rightarrow> Inr (out @ rest)))"

fun runPipeline :: "'f Transformer list \<Rightarrow> 'f list \<Rightarrow> error + 'f list" where
  "runPipeline [] files = Inr files"
| "runPipeline (t # ts) files =
     (case runStage t files of Inl e \<Rightarrow> Inl e | Inr out \<Rightarrow> runPipeline ts out)"

section \<open>Values and their data types\<close>

text \<open>
  The scalar values of a data type, as node-opcua hands them over: a boolean, a string,
  a valid date, a pair of unsigned 32-bit numbers for a 64-bit integer, a buffer for a
  byte string, an integer of the type's range. The other data types are not described.
\<close>

definition isUInt32Pair :: "jsvalue \<Rightarrow> bool" where
  "isUInt32Pair x =
     (case x of
        JArray [JNumber hi, JNumber lo] \<Rightarrow>
          0 \<le> hi \<and> hi < 4294967296 \<and> 0 \<le> lo \<and> lo < 4294967296
      | _ \<Rightarrow> False)"

definition isIntegerIn :: "int \<Rightarrow> int \<Rightarrow> jsvalue \<Rightarrow> bool" where
  "isIntegerIn lo hi x = (case x of JNumber n \<Rightarrow> lo \<le> n \<and> n < hi | _ \<Rightarrow> False)"

definition isValueOf :: "DataType \<Rightarrow> jsvalue \<Rightarrow> bool" where
  "isValueOf dt x =
     (case dt of
        Boolean \<Rightarrow> (case x of JBoolean b \<Rightarrow> True | _ \<Rightarrow> False)
      | String \<Rightarrow> (case x of JString s \<Rightarrow> True | _ \<Rightarrow> False)
      | DateTime \<Rightarrow> (case x of JDate t \<Rightarrow> \<bar>t\<bar> \<le> 8640000000000000 | _ \<Rightarrow> False)
      | Int64 \<Rightarrow> isUInt32Pair x
      | UInt64 \<Rightarrow> isUInt32Pair x
      | ByteString \<Rightarrow> (case x of JBuffer b \<Rightarrow> True | _ \<Rightarrow> False)
      | SByte \<Rightarrow> isIntegerIn (- 128) 128 x
      | Byte \<Rightarrow> isIntegerIn 0 256 x
      | Int16 \<Rightarrow> isIntegerIn (- 32768) 32768 x
      | UInt16 \<Rightarrow> isIntegerIn 0 65536 x
      | Int32 \<Rightarrow> isIntegerIn (- 2147483648) 2147483648 x
      | UInt32 \<Rightarrow> isIntegerIn 0 4294967296 x
      | _ \<Rightarrow> False)"

text \<open>Encoding a scalar value of a data type and decoding the contents again.\<close>

definition decodeEncoded :: "runtime \<Rightarrow> DataType \<Rightarrow> jsvalue \<Rightarrow> error + jsvalue" where
  "decodeEncoded rt dt x =
     (case encodeValue rt \<lparr>value' = x, S_dataType = dt, S_arrayType = Scalar\<rparr> dt of
        Inl e \<Rightarrow> Inl e
      | Inr b \<Rightarrow> decodeValue rt (Some b) dt)"

text \<open>A transformer for the concrete examples: it appends a mark and its name to a file,
  which here is a string.\<close>

definition tagWith :: "string \<Rightarrow> string Transformer" where
  "tagWith name =
     \<lparr>direction = None,
      transformFromDB = (\<lambda>file. Inr [file @ ''>'' @ name]),
      transformFromFilesystem = (\<lambda>file. Inr [file @ ''<'' @ name])\<rparr>"

text \<open>
  An extension that some step of \<^verbatim>\<open>_getMetadata\<close> looks for: the two array markers, the
  property marker, the lowercase name or the short form of a data type, the identifier of
  an atvise type.
\<close>

definition isKnownExtension :: "AtviseType list \<Rightarrow> string \<Rightarrow> bool" where
  "isKnownExtension AtviseTypes e =
     (e = ''array'' \<or> e = ''matrix'' \<or> e = ''prop'' \<or> e \<in> set typeExtensions
      \<or> e \<in> set (map fst DataTypeForExtension) \<or> e \<in> set (map identifier' AtviseTypes))"

text \<open>The suffix that \<^verbatim>\<open>pathForReadResult\<close> appends for an array type, as a list of
  extensions.\<close>

definition arrayExtensions :: "VariantArrayType \<Rightarrow> string list" where
  "arrayExtensions a = (case a of Scalar \<Rightarrow> [] | Array \<Rightarrow> [''array''] | Matrix \<Rightarrow> [''matrix''])"

text \<open>
  The conditions under which an entry of the table of atvise types is read back from the
  path written for it: the entry is the one found for the type definition's value and for
  its own identifier, it has the data type of the value, it does not keep the node's own
  extension, its identifier and its file extension are plain words that no earlier step of
  the inference consumes, and among the identifiers of the table (in the order of
  \<^verbatim>\<open>Object.keys\<close>) its identifier comes before its file extension.
\<close>

definition isPlainExtension :: "string \<Rightarrow> bool" where
  "isPlainExtension e = (CHR ''.'' \<notin> set e \<and> CHR ''/'' \<notin> set e \<and> CHR 0x5C \<notin> set e)"

definition isRegisteredFor :: "AtviseType list \<Rightarrow> NodeIdObject \<Rightarrow> DataType \<Rightarrow> bool" where
  "isRegisteredFor AtviseTypes td dt =
     (idvalue td \<noteq> NumId 62 \<and> idvalue td \<noteq> NumId 68 \<and>
      (case getProperty (AtviseTypesByValue AtviseTypes) (propertyKey (idvalue td)) of
         Own atType \<Rightarrow>
           let ident = identifier' atType;
               ext = (case fileExtension atType of
                        Some e \<Rightarrow> if e \<noteq> [] then e else extensionForDataType dt
                      | None \<Rightarrow> extensionForDataType dt)
           in typeDefinition atType = td \<and> dataType atType = dt \<and> \<not> keepExtension atType
              \<and> isPlainExtension ident \<and> isPlainExtension ext
              \<and> ident \<notin> set [''array'', ''matrix'', ''prop''] \<and> ident \<notin> set typeExtensions
              \<and> ident \<notin> set (map fst DataTypeForExtension) \<and> ident \<notin> set objectPrototypeKeys
              \<and> ext \<notin> set [''array'', ''matrix'', ''prop'']
              \<and> getProperty (AtviseTypesByIdentifier AtviseTypes) ident = Own atType
              \<and> find (\<lambda>k. k = ident \<or> k = ext) (Object_keys (AtviseTypesByIdentifier AtviseTypes))
                  = Some ident
       | _ \<Rightarrow> False))"

section \<open>Concrete instances\<close>

text \<open>
  A runtime and a table of types for the concrete examples: a host in the time zone one
  hour east of Greenwich, without daylight saving time, and the entry of the display type
  (its type definition is the one that \<^verbatim>\<open>isDisplay\<close> tests for).
\<close>

definition exampleRuntime :: runtime where
  "exampleRuntime =
     \<lparr>JSON_stringify_other = (\<lambda>v. ''null''),
      JSON_parse_other = (\<lambda>s. Inl SyntaxError),
      resolveNodeId = (\<lambda>s. Inr (JObject s)),
      Date_toString = (\<lambda>t. ''Thu Jan 01 1970''),
      Buffer_binary = (\<lambda>v. Inl TypeError),
      Number_toString_other = (\<lambda>n. ''1e+21''),
      LocalTime = (\<lambda>t. t + 3600000),
      UTC = (\<lambda>t. t - 3600000)\<rparr>"

definition exampleTypes :: "AtviseType list" where
  "exampleTypes =
     [\<lparr>typeDefinition =
         \<lparr>identifierType = STRING, idvalue = StrId ''VariableTypes.ATVISE.Display'',
          namespace = 1\<rparr>,
       identifier' = ''display'', dataType = XmlElement, fileExtension = None,
       keepExtension = False\<rparr>]"

definition newFile :: "string \<Rightarrow> string \<Rightarrow> string option \<Rightarrow> AtviseFile" where
  "newFile rel dir c =
     \<lparr>relative = rel, dirname = dir, contents = c, stat_mtime = None,
      cached_dataType = None, cached_arrayType = None, cached_typeDefinition = None\<rparr>"
section \<open>Decoding absent contents\<close>

text \<open>
  Claim C9. For every data type, \<^verbatim>\<open>decodeValue\<close> returns \<^verbatim>\<open>null\<close> for contents that are
  absent (\<^verbatim>\<open>null\<close>), exactly as it does for contents of length zero: a file without a
  contents buffer decodes to the null value and does not fail.
\<close>

theorem decodeValue_null_contents:
  "decodeValue rt None dt = Inr JNull \<and> decodeValue rt (Some []) dt = Inr JNull"
  by (simp add: decodeValue_def)

theorem decodeValue_null_contents_witness:
  "decodeValue exampleRuntime None DateTime = Inr JNull
   \<and> decodeValue exampleRuntime (Some []) DateTime = Inr JNull"
  using decodeValue_null_contents [of exampleRuntime DateTime] by simp

section \<open>Normalizing a modification time\<close>








section \<open>Echo suppression in the watch task\<close>

text \<open>
  Claim C4. After a push of node \<open>N\<close> (the \<^verbatim>\<open>'data'\<close> listener records \<open>N\<close> as the last
  pushed node, the \<^verbatim>\<open>'end'\<close> listener ends the push), the task is not pushing and the
  first server change of \<open>N\<close> starts no pull and clears the record; a second server change
  of \<open>N\<close> then starts a pull.
\<close>

theorem echo_suppression_once:
  assumes "nodeId readResult = N"
  shows "let pushed = fst (pushStream_end (pushStream_data this N));
             first = handleServerChange pushed readResult;
             second = handleServerChange (fst first) readResult
         in \<not> pushing pushed \<and> lastPushed pushed = Some N
            \<and> first = (pushed\<lparr>lastPushed := None\<rparr>, Resolved False)
            \<and> second = (pushed\<lparr>lastPushed := None, pulling := True\<rparr>, Started)"
  using assms
  by (simp add: Let_def pushStream_end_def pushStream_data_def handleServerChange_def)

theorem echo_suppression_once_witness:
  "let readResult = \<lparr>nodeId = ''AGENT.DISPLAYS.Main'', rr_value = None,
                      referenceDescription_typeDefinition = VariableTypeDefinition,
                      mtime = None\<rparr>;
       pushed = fst (pushStream_end (pushStream_data newWatchTask ''AGENT.DISPLAYS.Main''));
       first = handleServerChange pushed readResult;
       second = handleServerChange (fst first) readResult
   in snd first = Resolved False \<and> lastPushed (fst first) = None \<and> snd second = Started
      \<and> pulling (fst second)"
  using echo_suppression_once [of "\<lparr>nodeId = ''AGENT.DISPLAYS.Main'', rr_value = None,
                      referenceDescription_typeDefinition = VariableTypeDefinition,
                      mtime = None\<rparr>" "''AGENT.DISPLAYS.Main''" newWatchTask]
  by (simp add: Let_def pushStream_end_def pushStream_data_def handleServerChange_def
      newWatchTask_def)

section \<open>Decoding what was encoded\<close>

lemma digit_cases: "d < 10 \<Longrightarrow> d \<in> {0, 1, 2, 3, 4, 5, 6, 7, 8, 9::nat}"
  by auto

lemma isDigit_digitChar: "d < 10 \<Longrightarrow> isDigit (digitChar d)"
  unfolding isDigit_def digitChar_def by (rule nth_mem) (simp add: decimalDigits_def)

lemma digitVal_digitChar: "d < 10 \<Longrightarrow> digitVal (digitChar d) = d"
  using digit_cases [of d] by (auto simp: digitVal_def digitChar_def decimalDigits_def)

lemma nat_toString_62: "nat_toString 62 = ''62''"
  by (simp add: nat_toString.simps digitChar_def decimalDigits_def)

lemma nat_toString_digits: "c \<in> set (nat_toString n) \<Longrightarrow> isDigit c"
proof (induction n arbitrary: c rule: nat_toString.induct)
  case (1 n)
  show ?case
  proof (cases "n < 10")
    case True
    with 1(2) show ?thesis by (simp add: nat_toString.simps [of n] isDigit_digitChar)
  next
    case False
    with 1 show ?thesis by (auto simp: nat_toString.simps [of n] isDigit_digitChar)
  qed
qed

lemma nat_toString_not_Nil: "nat_toString n \<noteq> []"
  by (simp add: nat_toString.simps [of n])

lemma parseDigits_snoc:
  "\<forall>c \<in> set xs. isDigit c \<Longrightarrow> isDigit d \<Longrightarrow>
     parseDigits acc (xs @ [d]) = parseDigits acc xs * 10 + digitVal d"
  by (induction xs arbitrary: acc) auto

lemma parseDigits_nat_toString: "parseDigits 0 (nat_toString n) = n"
proof (induction n rule: nat_toString.induct)
  case (1 n)
  show ?case
  proof (cases "n < 10")
    case True
    then show ?thesis
      by (simp add: nat_toString.simps [of n] isDigit_digitChar digitVal_digitChar)
  next
    case False
    then have "parseDigits 0 (nat_toString n)
        = parseDigits 0 (nat_toString (n div 10)) * 10 + digitVal (digitChar (n mod 10))"
      by (simp add: nat_toString.simps [of n] parseDigits_snoc nat_toString_digits isDigit_digitChar)
    also have "\<dots> = (n div 10) * 10 + n mod 10"
      using 1 False by (simp add: digitVal_digitChar)
    finally show ?thesis by simp
  qed
qed

lemma nat_toString_Cons: "\<exists>c cs. nat_toString n = c # cs \<and> isDigit c"
  using nat_toString_not_Nil [of n] nat_toString_digits [of _ n]
  by (cases "nat_toString n") auto

text \<open>White space at the ends of a string, and strings that have none.\<close>

lemma matchingPrefix_first:
  assumes "s = [] \<or> hd s \<notin> set (map hd ws)"
  shows "matchingPrefix ws s = None"
proof -
  have "\<not> (w \<noteq> [] \<and> take (length w) s = w)" if w: "w \<in> set ws" for w
  proof
    assume a: "w \<noteq> [] \<and> take (length w) s = w"
    then have "s \<noteq> []" by auto
    moreover have "hd s = hd w" using a by (metis hd_take length_greater_0_conv)
    ultimately show False using assms w by auto
  qed
  then show ?thesis by (simp add: matchingPrefix_def find_None_iff)
qed

lemma stripLeading_first:
  "s = [] \<or> hd s \<notin> set (map hd ws) \<Longrightarrow> stripLeading ws s = s"
  by (simp add: stripLeading.simps [of ws s] matchingPrefix_first)

lemma stripLeading_step:
  "matchingPrefix ws s = Some w \<Longrightarrow> stripLeading ws s = stripLeading ws (drop (length w) s)"
  by (simp add: stripLeading.simps [of ws s])

lemma trimStart_plain: "s = [] \<or> \<not> startsWhiteSpace (hd s) \<Longrightarrow> trimStart s = s"
  unfolding trimStart_def startsWhiteSpace_def by (rule stripLeading_first)

lemma trim_plain:
  assumes "s = [] \<or> \<not> startsWhiteSpace (hd s) \<and> \<not> endsWhiteSpace (last s)"
  shows "trim s = s"
proof (cases "s = []")
  case True
  then show ?thesis by (simp add: trim_def trimStart_plain stripLeading_first)
next
  case False
  then have a: "\<not> startsWhiteSpace (hd s)" and b: "\<not> endsWhiteSpace (last s)"
    using assms by simp_all
  have "hd (rev s) \<notin> set (map hd (map rev whiteSpace))"
    using b False by (simp add: endsWhiteSpace_def hd_rev whiteSpace_def)
  then have "stripLeading (map rev whiteSpace) (rev s) = rev s"
    by (simp add: stripLeading_first)
  then show ?thesis using a by (simp add: trim_def trimStart_plain)
qed

lemma isDigit_plain:
  "isDigit c \<Longrightarrow> \<not> startsWhiteSpace c \<and> \<not> endsWhiteSpace c \<and> c \<noteq> CHR ''-'' \<and> c \<noteq> CHR ''+''
     \<and> c \<noteq> CHR '',''"
  by (auto simp: isDigit_def decimalDigits_def startsWhiteSpace_def endsWhiteSpace_def
      whiteSpace_def)

lemma minus_plain: "\<not> startsWhiteSpace (CHR ''-'')"
  by (simp add: startsWhiteSpace_def whiteSpace_def)

lemma parseInt_digits:
  "isDigit c \<Longrightarrow> parseInt (c # cs) = Some (int (parseDigits 0 (c # cs)))"
  using isDigit_plain [of c] by (simp add: parseInt_def trimStart_plain Let_def)

lemma parseInt_minus_digits:
  "isDigit c \<Longrightarrow> parseInt (CHR ''-'' # c # cs) = Some (- int (parseDigits 0 (c # cs)))"
  by (simp add: parseInt_def trimStart_plain minus_plain Let_def)

lemma parseInt_decimal: "parseInt (decimal i) = Some i"
proof (cases "i < 0")
  case False
  obtain c cs where eq: "nat_toString (nat i) = c # cs" and c: "isDigit c"
    using nat_toString_Cons by blast
  have "parseDigits 0 (c # cs) = nat i" using parseDigits_nat_toString [of "nat i"] eq by simp
  then show ?thesis using False c by (simp add: decimal_def eq parseInt_digits)
next
  case True
  obtain c cs where eq: "nat_toString (nat (- i)) = c # cs" and c: "isDigit c"
    using nat_toString_Cons by blast
  have "parseDigits 0 (c # cs) = nat (- i)"
    using parseDigits_nat_toString [of "nat (- i)"] eq by simp
  then show ?thesis using True c by (simp add: decimal_def eq parseInt_minus_digits)
qed

lemma decimal_not_Nil: "decimal i \<noteq> []"
  by (simp add: decimal_def nat_toString_not_Nil)

lemma decimal_chars: "c \<in> set (decimal i) \<Longrightarrow> isDigit c \<or> c = CHR ''-''"
  using nat_toString_digits by (auto simp: decimal_def split: if_splits)

lemma decimal_no_comma: "CHR '','' \<notin> set (decimal i)"
  using decimal_chars [of "CHR '',''" i] isDigit_plain [of "CHR '',''"] by auto

lemma decimal_ends: "\<not> startsWhiteSpace (hd (decimal i)) \<and> \<not> endsWhiteSpace (last (decimal i))"
proof -
  have l: "isDigit (last (decimal i))"
  proof -
    have "last (decimal i) = last (nat_toString (nat \<bar>i\<bar>))"
      by (simp add: decimal_def nat_toString_not_Nil)
    moreover have "last (nat_toString (nat \<bar>i\<bar>)) \<in> set (nat_toString (nat \<bar>i\<bar>))"
      by (simp add: nat_toString_not_Nil)
    ultimately show ?thesis using nat_toString_digits by simp
  qed
  have "hd (decimal i) \<in> set (decimal i)" by (simp add: decimal_not_Nil)
  then have "isDigit (hd (decimal i)) \<or> hd (decimal i) = CHR ''-''" by (rule decimal_chars)
  then have "\<not> startsWhiteSpace (hd (decimal i))"
    using isDigit_plain minus_plain by auto
  then show ?thesis using l isDigit_plain by simp
qed

lemma trim_decimal: "trim (decimal i) = decimal i"
  using decimal_ends [of i] by (simp add: trim_plain)

lemma trim_true_false: "trim ''true'' = ''true''" "trim ''false'' = ''false''"
  by (rule trim_plain, simp add: startsWhiteSpace_def endsWhiteSpace_def whiteSpace_def)+

text \<open>The JSON text of an array of integers is read back as that array.\<close>

lemma String_split_no_separator: "sep \<notin> set s \<Longrightarrow> String_split sep s = [s]"
  by (induction s) auto

lemma String_split_not_Nil: "String_split sep s \<noteq> []"
  by (induction s) (auto split: list.splits)

lemma String_split_append:
  "sep \<notin> set a \<Longrightarrow> String_split sep (a @ sep # b) = a # String_split sep b"
  by (induction a) (auto split: list.splits)

lemma String_split_join:
  "xs \<noteq> [] \<Longrightarrow> \<forall>x \<in> set xs. sep \<notin> set x \<Longrightarrow> String_split sep (join [sep] xs) = xs"
proof (induction "[sep]" xs rule: join.induct)
  case 1
  then show ?case by simp
next
  case (2 x)
  then show ?case by (simp add: String_split_no_separator)
next
  case (3 x y ys)
  then show ?case using String_split_append [of sep x "join [sep] (y # ys)"] by simp
qed

lemma isDecimalText_decimal: "safeInteger n \<Longrightarrow> isDecimalText (decimal n)"
  by (simp add: isDecimalText_def parseInt_decimal)

lemma integerArrayText_stringify:
  assumes "ns \<noteq> []" and "\<forall>n \<in> set ns. safeInteger n"
  shows "integerArrayText (''['' @ join '','' (map decimal ns) @ '']'') = Some ns"
proof -
  have s: "String_split (CHR '','') (join '','' (map decimal ns)) = map decimal ns"
    using assms(1) by (intro String_split_join) (auto simp: decimal_no_comma)
  have a: "list_all isDecimalText (map decimal ns)"
    using assms(2) by (simp add: list_all_iff isDecimalText_decimal)
  have m: "map ((\<lambda>p. case parseInt p of Some n \<Rightarrow> n | None \<Rightarrow> 0) \<circ> decimal) ns = ns"
    by (induction ns) (simp_all add: parseInt_decimal)
  show ?thesis by (simp add: integerArrayText_def s a m)
qed

lemma integersOf_Some:
  "integersOf x = Some ns \<Longrightarrow>
     x = JArray (map JNumber ns) \<and> ns \<noteq> [] \<and> (\<forall>n \<in> set ns. safeInteger n)"
proof (cases x)
  case (JArray xs)
  assume a: "integersOf x = Some ns"
  have el: "y = JNumber (case integerOf y of Some n \<Rightarrow> n | None \<Rightarrow> 0)
            \<and> safeInteger (case integerOf y of Some n \<Rightarrow> n | None \<Rightarrow> 0)"
    if "integerOf y \<noteq> None" for y
    using that by (cases y) (auto split: if_splits)
  from a JArray have all: "xs \<noteq> []" "\<forall>y \<in> set xs. integerOf y \<noteq> None"
    and ns: "ns = map (\<lambda>x. case integerOf x of Some n \<Rightarrow> n | None \<Rightarrow> 0) xs"
    by (auto simp: list_all_iff split: if_splits)
  have "map JNumber ns = xs"
    unfolding ns using all(2) el by (simp add: map_idI)
  then show ?thesis using JArray all el ns by auto
qed (simp_all)

lemma JSON_parse_stringify:
  "integersOf x = Some ns \<Longrightarrow>
     JSON_stringify rt x \<noteq> [] \<and> JSON_parse rt (JSON_stringify rt x) = Inr x"
  using integersOf_Some [of x ns] integerArrayText_stringify [of ns]
  by (simp add: JSON_stringify_def JSON_parse_def)

lemma decodeEncoded_Boolean:
  "decodeEncoded rt Boolean (JBoolean b) = Inr (JBoolean b)"
  by (cases b) (simp_all add: decodeEncoded_def encodeValue_def decodeValue_def trim_true_false)

lemma decodeEncoded_DateTime:
  "\<bar>t\<bar> \<le> 8640000000000000 \<Longrightarrow> decodeEncoded rt DateTime (JDate t) = Inr (JDate t)"
  by (simp add: decodeEncoded_def encodeValue_def decodeValue_def number_toString_def
      safeInteger_def decimal_not_Nil parseInt_decimal newDate_def)

lemma decodeEncoded_String:
  "decodeEncoded rt String (JString s) = Inr (if trim s = [] then JNull else JString (trim s))"
  by (simp add: decodeEncoded_def encodeValue_def decodeValue_def)

lemma decodeEncoded_NodeId:
  "decodeEncoded rt NodeId (JObject s)
     = (if trim s = [] then Inr JNull else resolveNodeId rt (trim s))"
  by (simp add: decodeEncoded_def encodeValue_def decodeValue_def)

lemma decodeEncoded_ByteString:
  "bytes \<noteq> [] \<Longrightarrow> decodeEncoded rt ByteString (JBuffer bytes) = Inr (JBuffer bytes)"
  by (simp add: decodeEncoded_def encodeValue_def decodeValue_def)

lemma isUInt32Pair_cases:
  assumes "isUInt32Pair x"
  shows "\<exists>hi lo. x = JArray [JNumber hi, JNumber lo] \<and> 0 \<le> hi \<and> hi < 4294967296
        \<and> 0 \<le> lo \<and> lo < 4294967296"
proof (cases x)
  case (JArray xs)
  then have a: "isUInt32Pair (JArray xs)" using assms by simp
  show ?thesis
  proof (cases xs)
    case Nil
    then show ?thesis using a by (simp add: isUInt32Pair_def)
  next
    case c1: (Cons y ys)
    show ?thesis
    proof (cases ys)
      case Nil
      then show ?thesis using a c1 by (cases y) (simp_all add: isUInt32Pair_def)
    next
      case c2: (Cons z zs)
      show ?thesis
      proof (cases zs)
        case Nil
        then show ?thesis using a c1 c2 JArray
          by (cases y; cases z) (simp_all add: isUInt32Pair_def)
      next
        case (Cons w ws)
        then show ?thesis using a c1 c2
          by (cases y; cases z) (simp_all add: isUInt32Pair_def)
      qed
    qed
  qed
qed (use assms in \<open>simp_all add: isUInt32Pair_def\<close>)

lemma isUInt32Pair_integersOf:
  assumes "isUInt32Pair x"
  shows "x \<noteq> JNull \<and> (\<exists>ns. integersOf x = Some ns)"
proof -
  obtain hi lo where "x = JArray [JNumber hi, JNumber lo]" "0 \<le> hi" "hi < 4294967296"
      "0 \<le> lo" "lo < 4294967296"
    using isUInt32Pair_cases [OF assms] by blast
  then show ?thesis by (simp add: safeInteger_def)
qed

lemma decodeEncoded_Int64:
  assumes "dt = Int64 \<or> dt = UInt64" and "isValueOf dt x"
  shows "decodeEncoded rt dt x = Inr x"
proof -
  have "isUInt32Pair x" using assms by (auto simp: isValueOf_def)
  then obtain ns where x: "x \<noteq> JNull" "integersOf x = Some ns"
    using isUInt32Pair_integersOf by blast
  show ?thesis
    using assms(1) x(1) JSON_parse_stringify [OF x(2), of rt]
    by (auto simp: decodeEncoded_def encodeValue_def decodeValue_def)
qed

lemma decodeEncoded_number:
  "Decoder rt dt = None \<Longrightarrow> Encoder rt dt = None \<Longrightarrow> safeInteger n \<Longrightarrow>
     decodeEncoded rt dt (JNumber n) = Inr (JBuffer (decimal n))"
  by (simp add: decodeEncoded_def encodeValue_def decodeValue_def number_toString_def
      trim_decimal decimal_not_Nil)

lemma decodeEncoded_Null:
  "decodeEncoded rt dt JNull = Inr JNull
   \<and> encodeValue rt \<lparr>value' = JNull, S_dataType = dt, S_arrayType = Scalar\<rparr> dt = Inr []"
  by (simp add: decodeEncoded_def encodeValue_def decodeValue_def)

text \<open>
  Claim C1, as amended. A null value is encoded as contents of length zero, which decode to
  null, for every data type. Every boolean, every valid date and every 64-bit integer (a
  pair of unsigned 32-bit numbers) is recovered by decoding its encoding. A string is
  recovered trimmed, and as null when nothing is left of it: it is recovered unchanged
  exactly when it is not empty and has no white space at either end. A byte string that is
  not empty is recovered. A node id is recovered exactly when \<^verbatim>\<open>resolveNodeId\<close> returns it
  for its trimmed text, and gives null when nothing is left of the text. For a data type
  without encoder and decoder, decoding the encoding of an integer of up to \<open>2\<^sup>5\<^sup>3\<close> in
  size gives the buffer of its decimal text, not the number.
\<close>

theorem decode_encode:
  "decodeEncoded rt dt JNull = Inr JNull
   \<and> encodeValue rt \<lparr>value' = JNull, S_dataType = dt, S_arrayType = Scalar\<rparr> dt = Inr []
   \<and> decodeEncoded rt Boolean (JBoolean b) = Inr (JBoolean b)
   \<and> (\<bar>t\<bar> \<le> 8640000000000000 \<longrightarrow> decodeEncoded rt DateTime (JDate t) = Inr (JDate t))
   \<and> decodeEncoded rt String (JString s) = Inr (if trim s = [] then JNull else JString (trim s))
   \<and> (s \<noteq> [] \<and> trim s = s \<longrightarrow> decodeEncoded rt String (JString s) = Inr (JString s))
   \<and> (bytes \<noteq> [] \<longrightarrow> decodeEncoded rt ByteString (JBuffer bytes) = Inr (JBuffer bytes))
   \<and> ((dt = Int64 \<or> dt = UInt64) \<and> isValueOf dt x \<longrightarrow> decodeEncoded rt dt x = Inr x)
   \<and> decodeEncoded rt NodeId (JObject s)
       = (if trim s = [] then Inr JNull else resolveNodeId rt (trim s))
   \<and> (Decoder rt nt = None \<and> Encoder rt nt = None \<and> safeInteger n \<longrightarrow>
        decodeEncoded rt nt (JNumber n) = Inr (JBuffer (decimal n)))"
  using decodeEncoded_Null [of rt dt] decodeEncoded_Boolean [of rt b]
    decodeEncoded_DateTime [of t rt] decodeEncoded_String [of rt s]
    decodeEncoded_ByteString [of bytes rt] decodeEncoded_Int64 [of dt x rt]
    decodeEncoded_NodeId [of rt s] decodeEncoded_number [of rt nt n]
  by simp

theorem decode_encode_witness:
  "decodeEncoded exampleRuntime DateTime (JDate 1513685106789) = Inr (JDate 1513685106789)
   \<and> decodeEncoded exampleRuntime String (JString ''AGENT'') = Inr (JString ''AGENT'')
   \<and> decodeEncoded exampleRuntime ByteString (JBuffer ''abc'') = Inr (JBuffer ''abc'')
   \<and> decodeEncoded exampleRuntime Int64 (JArray [JNumber 0, JNumber 1])
       = Inr (JArray [JNumber 0, JNumber 1])
   \<and> decodeEncoded exampleRuntime NodeId (JObject ''AGENT'') = Inr (JObject ''AGENT'')
   \<and> decodeEncoded exampleRuntime Int32 (JNumber 42) = Inr (JBuffer ''42'')"
  using decode_encode [of exampleRuntime Int64 True 1513685106789 "''AGENT''" "''abc''"
      "JArray [JNumber 0, JNumber 1]" Int32 42]
    trim_plain [of "''AGENT''"]
  by (simp add: isValueOf_def isUInt32Pair_def exampleRuntime_def startsWhiteSpace_def
      endsWhiteSpace_def whiteSpace_def safeInteger_def decimal_def nat_toString.simps
      digitChar_def decimalDigits_def)

text \<open>
  The string of a space and the letter a is a value of the data type String; decoding its
  encoding gives the string of the letter a alone.
\<close>

theorem decode_encode_counterexample:
  "isValueOf String (JString '' a'')
   \<and> decodeEncoded exampleRuntime String (JString '' a'') = Inr (JString ''a'')
   \<and> decodeEncoded exampleRuntime String (JString '' a'') \<noteq> Inr (JString '' a'')"
proof -
  have m: "matchingPrefix whiteSpace '' a'' = Some '' ''"
    by (simp add: matchingPrefix_def whiteSpace_def)
  have "trimStart '' a'' = ''a''"
    using stripLeading_step [OF m] stripLeading_first [of "''a''" whiteSpace]
    by (simp add: trimStart_def whiteSpace_def)
  moreover have "stripLeading (map rev whiteSpace) ''a'' = ''a''"
    by (rule stripLeading_first) (simp add: whiteSpace_def)
  ultimately have "trim '' a'' = ''a''" by (simp add: trim_def)
  then show ?thesis
    by (simp add: decodeEncoded_def encodeValue_def decodeValue_def isValueOf_def)
qed

section \<open>Strings, tables and the steps of the inference\<close>

lemma types_eq:
  "types =
     [''0'', ''1'', ''2'', ''3'', ''4''] @ [''5'', ''6'', ''7'', ''8'', ''9''] @
     [''10'', ''11'', ''12'', ''13'', ''14''] @ [''15'', ''16'', ''17'', ''18'', ''19''] @
     [''20'', ''21'', ''22'', ''23'', ''24''] @
     [''25'', ''enums'',
      ''Null'', ''Boolean'', ''SByte'', ''Byte'', ''Int16'', ''UInt16'', ''Int32'', ''UInt32'',
      ''Int64'', ''UInt64'', ''Float'', ''Double'', ''String'', ''DateTime'', ''Guid'',
      ''ByteString'', ''XmlElement'', ''NodeId'', ''ExpandedNodeId'', ''StatusCode'',
      ''QualifiedName'', ''LocalizedText'', ''ExtensionObject'', ''DataValue'', ''Variant'',
      ''DiagnosticInfo'', ''_is_flaggable'']"
  by code_simp

lemma typeExtensions_eq:
  "typeExtensions =
     [''0'', ''1'', ''2'', ''3'', ''4''] @ [''5'', ''6'', ''7'', ''8'', ''9''] @
     [''10'', ''11'', ''12'', ''13'', ''14''] @ [''15'', ''16'', ''17'', ''18'', ''19''] @
     [''20'', ''21'', ''22'', ''23'', ''24''] @
     [''25'', ''enums'',
      ''null'', ''boolean'', ''sbyte'', ''byte'', ''int16'', ''uint16'', ''int32'', ''uint32'',
      ''int64'', ''uint64'', ''float'', ''double'', ''string'', ''datetime'', ''guid'',
      ''bytestring'', ''xmlelement'', ''nodeid'', ''expandednodeid'', ''statuscode'',
      ''qualifiedname'', ''localizedtext'', ''extensionobject'', ''datavalue'', ''variant'',
      ''diagnosticinfo'', ''_is_flaggable'']"
  by (simp add: typeExtensions_def types_eq toLowerCase_def)

lemma DataType_get_item: "DataType_get (DataType_toString d) = Some (EnumItem d)"
  by (cases d; hypsubst; code_simp)

lemma DataTypeForExtension_eq:
  "DataTypeForExtension = [(''bool'', ''Boolean''), (''xml'', ''XmlElement'')]"
  by (simp add: DataTypeForExtension_def reverseObject_def ExtensionForDataType_def
      Object_keys_def isArrayIndex_def getProperty_def isDigit_def decimalDigits_def Let_def)

lemma ifLast_Nil [simp]: "ifLastExtensionMatches m fn ([], f) = ([], f)"
  by (simp add: ifLastExtensionMatches_def)

lemma ifLast_snoc [simp]:
  "ifLastExtensionMatches m fn (xs @ [e], f) = (if m e then (xs, fn e f) else (xs @ [e], f))"
  by (simp add: ifLastExtensionMatches_def)

lemma ifLast_single [simp]:
  "ifLastExtensionMatches m fn ([e], f) = (if m e then ([], fn e f) else ([e], f))"
  using ifLast_snoc [of m fn "[]" e f] by simp

section \<open>Composition of transformers: order and direction\<close>

text \<open>
  Claim C5. Composing the empty list of transformers gives a pipeline that passes every
  file through unchanged. Composing \<open>[A, B]\<close> for the direction from the remote side gives
  the stages \<open>A\<close> then \<open>B\<close>; for the direction from the filesystem the order is reversed, \<open>B\<close>
  then \<open>A\<close>. Every stage is bound to the direction given, so it runs its method of that
  direction.
\<close>

theorem applyTransformers_order:
  "applyTransformers [] (Some d) = Inr []
   \<and> runPipeline ([] :: 'f Transformer list) files = Inr files
   \<and> applyTransformers [A, B] (Some FromDB) = Inr [withDirection A FromDB, withDirection B FromDB]
   \<and> applyTransformers [A, B] (Some FromFilesystem)
       = Inr [withDirection B FromFilesystem, withDirection A FromFilesystem]
   \<and> runPipeline [withDirection A FromDB, withDirection B FromDB] files
       = (case runStage (withDirection A FromDB) files of
            Inl e \<Rightarrow> Inl e | Inr out \<Rightarrow> runStage (withDirection B FromDB) out)
   \<and> runPipeline [withDirection B FromFilesystem, withDirection A FromFilesystem] files
       = (case runStage (withDirection B FromFilesystem) files of
            Inl e \<Rightarrow> Inl e | Inr out \<Rightarrow> runStage (withDirection A FromFilesystem) out)
   \<and> transform (withDirection A FromDB) file = transformFromDB A file
   \<and> transform (withDirection A FromFilesystem) file = transformFromFilesystem A file"
  by (auto simp: applyTransformers_def withDirection_def transform_def split: sum.splits)

theorem applyTransformers_order_witness:
  "(case applyTransformers [tagWith ''A'', tagWith ''B''] (Some FromDB) of
      Inr p \<Rightarrow> runPipeline p [''f''] = Inr [''f>A>B''] | Inl e \<Rightarrow> False)
   \<and> (case applyTransformers [tagWith ''A'', tagWith ''B''] (Some FromFilesystem) of
      Inr p \<Rightarrow> runPipeline p [''f''] = Inr [''f<B<A''] | Inl e \<Rightarrow> False)
   \<and> (case applyTransformers [] (Some FromDB) of
      Inr p \<Rightarrow> runPipeline p [''f''] = Inr [''f''] | Inl e \<Rightarrow> False)"
  using applyTransformers_order [of FromDB "[''f'']" "tagWith ''A''" "tagWith ''B''" "''f''"]
  by (simp add: tagWith_def withDirection_def transform_def applyTransformers_def)

section \<open>Extension inference: the type definition\<close>

lemma DataType_get_Boolean: "DataType_get ''Boolean'' = Some (EnumItem Boolean)"
  using DataType_get_item [of Boolean] by simp

lemma foldl_atviseTypeStep_none:
  "\<forall>k \<in> set ks. k \<notin> set exts \<Longrightarrow>
     foldl (atviseTypeStep T exts) (Inr (b, f)) ks = Inr (b, f)"
  by (induction ks) (simp_all add: atviseTypeStep_def)

lemma getMetadata_no_tokens_left:
  assumes "fst (arrayAndDataTypeSteps f) = []"
  shows "getMetadata T f =
           Inr (if cached_dataType (snd (arrayAndDataTypeSteps f)) \<noteq> None
                then (snd (arrayAndDataTypeSteps f))
                       \<lparr>cached_typeDefinition := Some VariableTypeDefinition\<rparr>
                else (snd (arrayAndDataTypeSteps f))
                       \<lparr>cached_typeDefinition := Some OctetStreamTypeDefinition,
                        cached_dataType := Some (EnumItem ByteString)\<rparr>)"
proof -
  obtain g where s4: "arrayAndDataTypeSteps f = ([], g)"
    using assms by (cases "arrayAndDataTypeSteps f") auto
  show ?thesis
    by (simp add: getMetadata_def s4 Let_def complete_def foldl_atviseTypeStep_none)
qed

text \<open>
  Claim C7, as amended. When the list of extensions is empty after the steps that take
  the array type and the data type from it, and a data type is known by then, the type
  definition inferred is the one of a plain variable, with that data type. When no data
  type is known by then (as for a path without any extension), the result is the fallback:
  the generic resource type definition with the data type ByteString.
\<close>

theorem variable_when_no_tokens_left:
  assumes "fst (arrayAndDataTypeSteps f) = []"
  shows "\<exists>g. getMetadata T f = Inr g
           \<and> (cached_dataType (snd (arrayAndDataTypeSteps f)) \<noteq> None \<longrightarrow>
                cached_typeDefinition g = Some VariableTypeDefinition
                \<and> cached_dataType g = cached_dataType (snd (arrayAndDataTypeSteps f)))
           \<and> (cached_dataType (snd (arrayAndDataTypeSteps f)) = None \<longrightarrow>
                cached_typeDefinition g = Some OctetStreamTypeDefinition
                \<and> cached_dataType g = Some (EnumItem ByteString))"
  by (simp add: getMetadata_no_tokens_left [OF assms])

lemma initialExtensions_Main_bool:
  "CHR ''.'' \<notin> set dir \<Longrightarrow> initialExtensions (newFile ''AGENT/DISPLAYS/Main.bool'' dir c) = [''bool'']"
  by (simp add: initialExtensions_def newFile_def String_split_no_separator Let_def)

lemma steps_Main_bool:
  "CHR ''.'' \<notin> set dir \<Longrightarrow>
     arrayAndDataTypeSteps (newFile ''AGENT/DISPLAYS/Main.bool'' dir c)
       = ([], (newFile ''AGENT/DISPLAYS/Main.bool'' dir c)
                \<lparr>cached_arrayType := Some Scalar, cached_dataType := Some (EnumItem Boolean)\<rparr>)"
  by (simp add: arrayAndDataTypeSteps_def initialExtensions_Main_bool typeExtensions_eq
      DataTypeForExtension_eq getProperty_def DataType_get_Boolean Let_def)

lemma steps_Main:
  "CHR ''.'' \<notin> set dir \<Longrightarrow>
     arrayAndDataTypeSteps (newFile ''AGENT/DISPLAYS/Main'' dir c)
       = ([], (newFile ''AGENT/DISPLAYS/Main'' dir c)\<lparr>cached_arrayType := Some Scalar\<rparr>)"
  by (simp add: arrayAndDataTypeSteps_def initialExtensions_def newFile_def
      String_split_no_separator Let_def)

theorem variable_when_no_tokens_left_witness:
  "fst (arrayAndDataTypeSteps (newFile ''AGENT/DISPLAYS/Main.bool'' ''AGENT/DISPLAYS'' None)) = []
   \<and> (\<exists>g. getMetadata exampleTypes (newFile ''AGENT/DISPLAYS/Main.bool'' ''AGENT/DISPLAYS'' None)
             = Inr g
         \<and> cached_typeDefinition g = Some VariableTypeDefinition
         \<and> cached_dataType g = Some (EnumItem Boolean))"
  using variable_when_no_tokens_left
          [of "newFile ''AGENT/DISPLAYS/Main.bool'' ''AGENT/DISPLAYS'' None" exampleTypes]
  by (simp add: steps_Main_bool)

text \<open>
  The path \<^verbatim>\<open>AGENT/DISPLAYS/Main\<close> has no extension: its list of extensions is empty after
  the steps, and the type definition inferred is the generic resource type, not the one of
  a variable.
\<close>

theorem variable_when_no_tokens_left_counterexample:
  "fst (arrayAndDataTypeSteps (newFile ''AGENT/DISPLAYS/Main'' ''AGENT/DISPLAYS'' None)) = []
   \<and> getMetadata exampleTypes (newFile ''AGENT/DISPLAYS/Main'' ''AGENT/DISPLAYS'' None)
       = Inr ((newFile ''AGENT/DISPLAYS/Main'' ''AGENT/DISPLAYS'' None)
                \<lparr>cached_arrayType := Some Scalar,
                 cached_typeDefinition := Some OctetStreamTypeDefinition,
                 cached_dataType := Some (EnumItem ByteString)\<rparr>)
   \<and> Some OctetStreamTypeDefinition \<noteq> Some VariableTypeDefinition"
  by (simp add: getMetadata_no_tokens_left steps_Main)
     (simp add: OctetStreamTypeDefinition_def VariableTypeDefinition_def newFile_def)

section \<open>The scenario of the Boolean variable\<close>

lemma getProperty_OwnD: "getProperty obj key = Own v \<Longrightarrow> (key, v) \<in> set obj"
proof -
  assume "getProperty obj key = Own v"
  then have "map_of (rev obj) key = Some v"
    by (simp add: getProperty_def split: option.splits if_splits)
  then have "(key, v) \<in> set (rev obj)" by (rule map_of_SomeD)
  then show ?thesis by simp
qed

lemma getMetadata_Main_bool:
  "CHR ''.'' \<notin> set dir \<Longrightarrow>
     getMetadata T (newFile ''AGENT/DISPLAYS/Main.bool'' dir c)
       = Inr ((newFile ''AGENT/DISPLAYS/Main.bool'' dir c)
                \<lparr>cached_arrayType := Some Scalar, cached_dataType := Some (EnumItem Boolean),
                 cached_typeDefinition := Some VariableTypeDefinition\<rparr>)"
  by (simp add: getMetadata_no_tokens_left steps_Main_bool)

lemma newFile_sel [simp]:
  "relative (newFile r d c) = r" "dirname (newFile r d c) = d" "contents (newFile r d c) = c"
  "cached_dataType (newFile r d c) = None" "cached_arrayType (newFile r d c) = None"
  "cached_typeDefinition (newFile r d c) = None"
  by (simp_all add: newFile_def)

text \<open>
  Claim C6. The read result of the variable node \<^verbatim>\<open>AGENT.DISPLAYS.Main\<close> with the scalar
  Boolean value false is stored at the path \<^verbatim>\<open>AGENT/DISPLAYS/Main.bool\<close> with the contents
  \<^verbatim>\<open>false\<close>. A file of that relative path (in a directory whose name has no dot, with a
  table in which no type that keeps its extension has the variable type definition's
  value) with the contents \<^verbatim>\<open>true\<close> gives the value true, the data type Boolean and the
  node id \<^verbatim>\<open>AGENT.DISPLAYS.Main\<close>.
\<close>

theorem scenario_boolean_variable:
  assumes "CHR ''.'' \<notin> set dir"
      and "\<forall>t \<in> set T. propertyKey (idvalue (typeDefinition t)) = ''62'' \<longrightarrow> \<not> keepExtension t"
  shows "pathForReadResult T
           \<lparr>nodeId = ''AGENT.DISPLAYS.Main'',
            rr_value = Some \<lparr>value' = JBoolean False, S_dataType = Boolean, S_arrayType = Scalar\<rparr>,
            referenceDescription_typeDefinition = VariableTypeDefinition, mtime = m\<rparr>
           = Inr ''AGENT/DISPLAYS/Main.bool''
         \<and> encodeValue rt \<lparr>value' = JBoolean False, S_dataType = Boolean, S_arrayType = Scalar\<rparr>
             Boolean = Inr ''false''
         \<and> (\<exists>g. get_value rt T (newFile ''AGENT/DISPLAYS/Main.bool'' dir (Some ''true''))
                   = Inr (JBoolean True, g))
         \<and> (\<exists>g. get_dataType T (newFile ''AGENT/DISPLAYS/Main.bool'' dir (Some ''true''))
                   = Inr (Some (EnumItem Boolean), g))
         \<and> (\<exists>g. get_nodeId T (newFile ''AGENT/DISPLAYS/Main.bool'' dir (Some ''true''))
                   = Inr (''AGENT.DISPLAYS.Main'', g))"
proof -
  have path: "pathForReadResult T
           \<lparr>nodeId = ''AGENT.DISPLAYS.Main'',
            rr_value = Some \<lparr>value' = JBoolean False, S_dataType = Boolean, S_arrayType = Scalar\<rparr>,
            referenceDescription_typeDefinition = VariableTypeDefinition, mtime = m\<rparr>
           = Inr ''AGENT/DISPLAYS/Main.bool''"
    by (simp add: pathForReadResult_def filePath_def extensionForDataType_def
        ExtensionForDataType_def getProperty_def Let_def)
  have enc: "encodeValue rt \<lparr>value' = JBoolean False, S_dataType = Boolean, S_arrayType = Scalar\<rparr>
             Boolean = Inr ''false''"
    by (simp add: encodeValue_def trim_true_false)
  note meta = getMetadata_Main_bool [OF assms(1)]
  have val: "\<exists>g. get_value rt T (newFile ''AGENT/DISPLAYS/Main.bool'' dir (Some ''true''))
             = Inr (JBoolean True, g)"
    by (simp add: get_value_def get_dataType_def meta decodeValue_def)
  have dt: "\<exists>g. get_dataType T (newFile ''AGENT/DISPLAYS/Main.bool'' dir (Some ''true''))
             = Inr (Some (EnumItem Boolean), g)"
    by (simp add: get_dataType_def meta)
  have key: "\<not> keepExtension t" if "getProperty (AtviseTypesByValue T) ''62'' = Own t" for t
  proof -
    have "(''62'', t) \<in> set (AtviseTypesByValue T)" using that by (rule getProperty_OwnD)
    then show ?thesis using assms(2) by (auto simp: AtviseTypesByValue_def)
  qed
  have nid: "\<exists>g. get_nodeId T (newFile ''AGENT/DISPLAYS/Main.bool'' dir (Some ''true''))
             = Inr (''AGENT.DISPLAYS.Main'', g)"
    using key
    by (auto simp: get_nodeId_def get_typeDefinition_def meta Let_def VariableTypeDefinition_def
        nat_toString_62 fromFilePath_def split: property.splits)
  show ?thesis using path enc val dt nid by simp
qed

theorem scenario_boolean_variable_witness:
  "pathForReadResult exampleTypes
           \<lparr>nodeId = ''AGENT.DISPLAYS.Main'',
            rr_value = Some \<lparr>value' = JBoolean False, S_dataType = Boolean, S_arrayType = Scalar\<rparr>,
            referenceDescription_typeDefinition = VariableTypeDefinition, mtime = None\<rparr>
           = Inr ''AGENT/DISPLAYS/Main.bool''
   \<and> (\<exists>g. get_value exampleRuntime exampleTypes
             (newFile ''AGENT/DISPLAYS/Main.bool'' ''AGENT/DISPLAYS'' (Some ''true''))
           = Inr (JBoolean True, g))
   \<and> (\<exists>g. get_nodeId exampleTypes
             (newFile ''AGENT/DISPLAYS/Main.bool'' ''AGENT/DISPLAYS'' (Some ''true''))
           = Inr (''AGENT.DISPLAYS.Main'', g))"
  using scenario_boolean_variable [of "''AGENT/DISPLAYS''" exampleTypes None exampleRuntime]
  by (simp add: exampleTypes_def)

section \<open>Extension inference is total\<close>

lemma set_Object_keys: "set (Object_keys obj) = fst ` set obj"
  by (auto simp: Object_keys_def Let_def)

lemma ifLast_no_match:
  "\<forall>e \<in> set xs. \<not> m e \<Longrightarrow> ifLastExtensionMatches m fn (xs, g) = (xs, g)"
  by (auto simp: ifLastExtensionMatches_def)

lemma Object_keys_Own: "k \<in> set (Object_keys obj) \<Longrightarrow> \<exists>v. getProperty obj k = Own v"
proof -
  assume "k \<in> set (Object_keys obj)"
  then have "k \<in> fst ` set (rev obj)" by (simp add: set_Object_keys)
  then have "map_of (rev obj) k \<noteq> None" by (simp only: map_of_eq_None_iff not_not)
  then show ?thesis by (auto simp: getProperty_def)
qed

text \<open>The loop over the keys of the table of identifiers reads own properties only, so
  it ends without an error; it leaves the array type as it is.\<close>

lemma foldl_atviseTypeStep_total:
  "\<forall>k \<in> set ks. \<exists>v. getProperty (AtviseTypesByIdentifier T) k = Own v \<Longrightarrow>
     \<exists>b g. foldl (atviseTypeStep T exts) (Inr (b0, f0)) ks = Inr (b, g)
        \<and> cached_arrayType g = cached_arrayType f0"
proof (induction ks arbitrary: b0 f0)
  case Nil
  show ?case by simp
next
  case (Cons k ks)
  obtain v where v: "getProperty (AtviseTypesByIdentifier T) k = Own v"
    using Cons.prems by auto
  have "\<exists>b1 f1. atviseTypeStep T exts (Inr (b0, f0)) k = Inr (b1, f1)
          \<and> cached_arrayType f1 = cached_arrayType f0"
    by (auto simp: atviseTypeStep_def v)
  then obtain b1 f1 where s: "atviseTypeStep T exts (Inr (b0, f0)) k = Inr (b1, f1)"
      "cached_arrayType f1 = cached_arrayType f0"
    by blast
  have "\<exists>b g. foldl (atviseTypeStep T exts) (Inr (b1, f1)) ks = Inr (b, g)
        \<and> cached_arrayType g = cached_arrayType f1"
    using Cons.IH [of b1 f1] Cons.prems by simp
  then show ?case using s by simp
qed

lemma ifLast_arrayType:
  "(\<And>e g. cached_arrayType g \<noteq> None \<Longrightarrow> cached_arrayType (fn e g) \<noteq> None) \<Longrightarrow>
     cached_arrayType (snd s) \<noteq> None \<Longrightarrow>
     cached_arrayType (snd (ifLastExtensionMatches m fn s)) \<noteq> None"
  by (cases s) (simp add: ifLastExtensionMatches_def)

lemma steps_arrayType: "cached_arrayType (snd (arrayAndDataTypeSteps f)) \<noteq> None"
  unfolding arrayAndDataTypeSteps_def Let_def
  apply (rule ifLast_arrayType, simp)
  apply (rule ifLast_arrayType, simp)
  apply (rule ifLast_arrayType, simp)
  apply (rule ifLast_arrayType, simp)
  apply simp
  done

text \<open>
  \<^verbatim>\<open>_getMetadata\<close> ends without an error for every file and every table of types, and
  afterwards none of the three fields is undefined.
\<close>

lemma getMetadata_total:
  "\<exists>g. getMetadata T f = Inr g \<and> complete g \<and> cached_arrayType g \<noteq> None"
proof -
  obtain ys g4 where s4: "arrayAndDataTypeSteps f = (ys, g4)"
    by (cases "arrayAndDataTypeSteps f") auto
  have a4: "cached_arrayType g4 \<noteq> None" using steps_arrayType [of f] by (simp add: s4)
  define s5 where
    "s5 = (if length ys = 0 then (ys, g4\<lparr>cached_typeDefinition := Some VariableTypeDefinition\<rparr>)
           else (ys, g4))"
  define s6 where
    "s6 = ifLastExtensionMatches (\<lambda>ext. ext = ''prop'')
            (\<lambda>ext file. file\<lparr>cached_typeDefinition := Some PropertyTypeDefinition\<rparr>) s5"
  have a5: "cached_arrayType (snd s5) \<noteq> None" using a4 by (simp add: s5_def)
  have a6: "cached_arrayType (snd s6) \<noteq> None"
    unfolding s6_def using _ a5 by (rule ifLast_arrayType) simp
  define s7 where
    "s7 = (if \<not> complete (snd s6)
           then foldl (atviseTypeStep T (fst s6)) (Inr (False, snd s6))
                  (Object_keys (AtviseTypesByIdentifier T))
           else Inr (False, snd s6))"
  have "\<exists>b g. s7 = Inr (b, g) \<and> cached_arrayType g = cached_arrayType (snd s6)"
    unfolding s7_def
    using foldl_atviseTypeStep_total
            [of "Object_keys (AtviseTypesByIdentifier T)" T "fst s6" False "snd s6"]
      Object_keys_Own [of _ "AtviseTypesByIdentifier T"]
    by auto
  then obtain b g7 where s7: "s7 = Inr (b, g7)" and a7: "cached_arrayType g7 \<noteq> None"
    using a6 by auto
  have "getMetadata T f =
          (case s7 of
             Inl e \<Rightarrow> Inl e
           | Inr (foundAtType, file7) \<Rightarrow>
               Inr (if \<not> complete file7
                    then file7\<lparr>cached_typeDefinition := Some OctetStreamTypeDefinition,
                                cached_dataType := Some (EnumItem ByteString)\<rparr>
                    else file7))"
    by (simp add: getMetadata_def s4 Let_def s7_def s6_def s5_def)
  then have "getMetadata T f =
          Inr (if \<not> complete g7
               then g7\<lparr>cached_typeDefinition := Some OctetStreamTypeDefinition,
                        cached_dataType := Some (EnumItem ByteString)\<rparr>
               else g7)"
    by (simp add: s7)
  then show ?thesis using a7 by (auto simp: complete_def)
qed

lemma getMetadata_fallback:
  assumes s4: "arrayAndDataTypeSteps f = (ys, g)"
      and dt: "cached_dataType g = None"
      and ys: "\<forall>e \<in> set ys. e \<noteq> ''prop'' \<and> e \<notin> set (map identifier' T)"
  shows "getMetadata T f =
           Inr (g\<lparr>cached_typeDefinition := Some OctetStreamTypeDefinition,
                   cached_dataType := Some (EnumItem ByteString)\<rparr>)"
proof -
  have keys: "\<forall>k \<in> set (Object_keys (AtviseTypesByIdentifier T)). k \<notin> set ys"
    using ys by (auto simp: set_Object_keys AtviseTypesByIdentifier_def)
  have skip: "ifLastExtensionMatches (\<lambda>ext. ext = ''prop'') upd (ys, h) = (ys, h)" for upd h
    using ys by (simp add: ifLast_no_match)
  show ?thesis
  proof (cases "ys = []")
    case True
    then show ?thesis
      using dt by (simp add: getMetadata_def s4 Let_def complete_def foldl_atviseTypeStep_none)
  next
    case False
    then show ?thesis
      using dt keys
      by (simp add: getMetadata_def s4 Let_def complete_def skip foldl_atviseTypeStep_none)
  qed
qed

lemma steps_unknown:
  assumes dt: "cached_dataType f = None"
      and xs: "\<forall>e \<in> set (initialExtensions f). \<not> isKnownExtension T e"
  shows "\<exists>ys g. arrayAndDataTypeSteps f = (ys, g) \<and> set ys \<subseteq> set (initialExtensions f)
           \<and> cached_dataType g = None \<and> cached_arrayType g = Some Scalar
           \<and> cached_typeDefinition g = cached_typeDefinition f"
proof -
  let ?xs = "initialExtensions f"
  let ?g = "f\<lparr>cached_arrayType := Some Scalar\<rparr>"
  have a: "\<forall>e \<in> set ?xs. \<not> e = ''array''" and m: "\<forall>e \<in> set ?xs. \<not> e = ''matrix''"
    and t: "\<forall>e \<in> set ?xs. \<not> e \<in> set typeExtensions"
    using xs by (auto simp: isKnownExtension_def)
  have own: "getProperty DataTypeForExtension e \<noteq> Own name" if "e \<in> set ?xs" for e name
  proof
    assume "getProperty DataTypeForExtension e = Own name"
    then have "(e, name) \<in> set DataTypeForExtension" by (rule getProperty_OwnD)
    then have "e \<in> set (map fst DataTypeForExtension)" by force
    then show False using xs that by (auto simp: isKnownExtension_def)
  qed
  have s3: "arrayAndDataTypeSteps f =
      ifLastExtensionMatches
           (\<lambda>ext. case getProperty DataTypeForExtension ext of
                     Own name \<Rightarrow> name \<noteq> [] | Inherited \<Rightarrow> True | Undefined \<Rightarrow> False)
           (\<lambda>ext file. file\<lparr>cached_dataType :=
              (case getProperty DataTypeForExtension ext of
                 Own name \<Rightarrow> DataType_get name
               | _ \<Rightarrow> None)\<rparr>) (?xs, ?g)"
    by (simp add: arrayAndDataTypeSteps_def Let_def ifLast_no_match [OF a]
        ifLast_no_match [OF m] ifLast_no_match [OF t])
  show ?thesis
  proof (cases "?xs = []")
    case True
    then show ?thesis using dt by (simp add: s3 ifLastExtensionMatches_def)
  next
    case False
    then have "last ?xs \<in> set ?xs" by simp
    then have "getProperty DataTypeForExtension (last ?xs) \<noteq> Own name" for name
      using own by blast
    then show ?thesis
      using dt False
      by (cases "getProperty DataTypeForExtension (last ?xs)")
         (auto simp: s3 ifLastExtensionMatches_def dest: in_set_butlastD)
  qed
qed

text \<open>
  For a file without metadata whose list of extensions holds nothing that a step looks for
  (no array or property marker, no key of the object \<^verbatim>\<open>DataType\<close> in lowercase, no short
  form of a data type, no identifier of an atvise type; in particular for a path without
  any extension), the result is the fallback: the data type ByteString, scalar, with the
  generic resource type definition.
\<close>

lemma inference_fallback:
  assumes dt: "cached_dataType f = None"
      and xs: "\<forall>e \<in> set (initialExtensions f). \<not> isKnownExtension T e"
  shows "\<exists>g. getMetadata T f = Inr g
           \<and> cached_dataType g = Some (EnumItem ByteString)
           \<and> cached_arrayType g = Some Scalar
           \<and> cached_typeDefinition g = Some OctetStreamTypeDefinition"
proof -
  obtain ys g where s4: "arrayAndDataTypeSteps f = (ys, g)"
    and sub: "set ys \<subseteq> set (initialExtensions f)"
    and g: "cached_dataType g = None" "cached_arrayType g = Some Scalar"
    using steps_unknown [OF dt xs] by blast
  have "\<forall>e \<in> set ys. e \<noteq> ''prop'' \<and> e \<notin> set (map identifier' T)"
    using sub xs by (auto simp: isKnownExtension_def)
  then show ?thesis using getMetadata_fallback [OF s4 g(1)] g(2) by simp
qed

lemma DataType_get_flag: "DataType_get ''_is_flaggable'' = Some (EnumFlag False)"
  by code_simp

lemma steps_flag:
  "arrayAndDataTypeSteps (newFile ''AGENT/notes._is_flaggable'' ''AGENT'' None)
     = ([], (newFile ''AGENT/notes._is_flaggable'' ''AGENT'' None)
              \<lparr>cached_arrayType := Some Scalar, cached_dataType := Some (EnumFlag False)\<rparr>)"
  by (simp add: arrayAndDataTypeSteps_def initialExtensions_def Let_def typeExtensions_eq
      types_eq DataType_get_flag)

lemma DataType_get_1: "DataType_get ''1'' = Some (EnumItem Boolean)"
  by code_simp

lemma steps_1:
  "arrayAndDataTypeSteps (newFile ''AGENT/notes.1'' ''AGENT'' None)
     = ([], (newFile ''AGENT/notes.1'' ''AGENT'' None)
              \<lparr>cached_arrayType := Some Scalar, cached_dataType := Some (EnumItem Boolean)\<rparr>)"
  by (simp add: arrayAndDataTypeSteps_def initialExtensions_def Let_def typeExtensions_eq
      types_eq DataType_get_1)

text \<open>
  Claim C3 says that every relative path resolves to a triple of data type, array type
  and type definition, with the fallback to ByteString and the generic resource type when
  no extension is recognized. The inference does end without an error for every path
  (\<open>getMetadata_total\<close>), but the names it recognizes as data types are all the keys of the
  object \<^verbatim>\<open>DataType\<close>, not only the names of the items. The path
  \<^verbatim>\<open>AGENT/notes._is_flaggable\<close> has the one extension \<^verbatim>\<open>_is_flaggable\<close>, which is no data
  type: the inference takes it for one, and the data type of the file is the boolean
  \<^verbatim>\<open>false\<close>, which is no item of the enumeration, with the type definition of a variable;
  the getter of the data type returns that \<^verbatim>\<open>false\<close>. In the same way the path
  \<^verbatim>\<open>AGENT/notes.1\<close> is taken for a Boolean variable.
\<close>

theorem inference_flag_token:
  "initialExtensions (newFile ''AGENT/notes._is_flaggable'' ''AGENT'' None) = [''_is_flaggable'']
   \<and> getMetadata T (newFile ''AGENT/notes._is_flaggable'' ''AGENT'' None)
       = Inr ((newFile ''AGENT/notes._is_flaggable'' ''AGENT'' None)
                \<lparr>cached_arrayType := Some Scalar, cached_dataType := Some (EnumFlag False),
                 cached_typeDefinition := Some VariableTypeDefinition\<rparr>)
   \<and> get_dataType T (newFile ''AGENT/notes._is_flaggable'' ''AGENT'' None)
       = Inr (Some (EnumFlag False),
              (newFile ''AGENT/notes._is_flaggable'' ''AGENT'' None)
                \<lparr>cached_arrayType := Some Scalar, cached_dataType := Some (EnumFlag False),
                 cached_typeDefinition := Some VariableTypeDefinition\<rparr>)
   \<and> EnumFlag False \<noteq> EnumItem d
   \<and> Some VariableTypeDefinition \<noteq> Some OctetStreamTypeDefinition
   \<and> getMetadata T (newFile ''AGENT/notes.1'' ''AGENT'' None)
       = Inr ((newFile ''AGENT/notes.1'' ''AGENT'' None)
                \<lparr>cached_arrayType := Some Scalar, cached_dataType := Some (EnumItem Boolean),
                 cached_typeDefinition := Some VariableTypeDefinition\<rparr>)"
proof -
  have i: "initialExtensions (newFile ''AGENT/notes._is_flaggable'' ''AGENT'' None)
             = [''_is_flaggable'']"
    by (simp add: initialExtensions_def Let_def)
  have m: "getMetadata T (newFile ''AGENT/notes._is_flaggable'' ''AGENT'' None)
       = Inr ((newFile ''AGENT/notes._is_flaggable'' ''AGENT'' None)
                \<lparr>cached_arrayType := Some Scalar, cached_dataType := Some (EnumFlag False),
                 cached_typeDefinition := Some VariableTypeDefinition\<rparr>)"
    by (simp add: getMetadata_no_tokens_left steps_flag)
  have n: "getMetadata T (newFile ''AGENT/notes.1'' ''AGENT'' None)
       = Inr ((newFile ''AGENT/notes.1'' ''AGENT'' None)
                \<lparr>cached_arrayType := Some Scalar, cached_dataType := Some (EnumItem Boolean),
                 cached_typeDefinition := Some VariableTypeDefinition\<rparr>)"
    by (simp add: getMetadata_no_tokens_left steps_1)
  show ?thesis
    by (simp add: i m n get_dataType_def)
       (simp add: VariableTypeDefinition_def OctetStreamTypeDefinition_def)
qed

section \<open>From a read result to a path and back\<close>

lemma extensionForDataType_eq:
  "extensionForDataType dt =
     (if dt = Boolean then ''bool'' else if dt = XmlElement then ''xml''
      else toLowerCase (DataType_toString dt))"
  by (cases dt) (simp_all add: extensionForDataType_def ExtensionForDataType_def getProperty_def
      objectPrototypeKeys_def)

lemma extension_chars:
  "CHR ''.'' \<notin> set (extensionForDataType dt) \<and> CHR ''/'' \<notin> set (extensionForDataType dt)
   \<and> CHR 0x5C \<notin> set (extensionForDataType dt)
   \<and> extensionForDataType dt \<noteq> ''array'' \<and> extensionForDataType dt \<noteq> ''matrix''
   \<and> extensionForDataType dt \<noteq> ''prop''"
  by (cases dt) (simp_all add: extensionForDataType_eq toLowerCase_def)

lemma typeExtension_index:
  "dt \<noteq> Boolean \<Longrightarrow> dt \<noteq> XmlElement \<Longrightarrow>
     extensionForDataType dt \<in> set typeExtensions
     \<and> (\<exists>i. indexOf typeExtensions (extensionForDataType dt) = Some i
            \<and> types ! i = DataType_toString dt)"
  by (cases dt)
     (simp_all add: extensionForDataType_eq toLowerCase_def typeExtensions_eq types_eq)

lemma typeExtension_lookup:
  assumes "dt \<noteq> Boolean" "dt \<noteq> XmlElement"
  shows "extensionForDataType dt \<in> set typeExtensions
     \<and> (case indexOf typeExtensions (extensionForDataType dt) of
          Some i \<Rightarrow> DataType_get (types ! i) | None \<Rightarrow> None) = Some (EnumItem dt)"
proof -
  obtain i where "indexOf typeExtensions (extensionForDataType dt) = Some i"
      "types ! i = DataType_toString dt"
    using typeExtension_index [OF assms] by blast
  then show ?thesis using typeExtension_index [OF assms] by (simp add: DataType_get_item)
qed

lemma alias_lookup:
  "dt = Boolean \<or> dt = XmlElement \<Longrightarrow>
     extensionForDataType dt \<notin> set typeExtensions
     \<and> (\<exists>name. getProperty DataTypeForExtension (extensionForDataType dt) = Own name
           \<and> name \<noteq> [] \<and> DataType_get name = Some (EnumItem dt))"
  using DataType_get_item [of Boolean] DataType_get_item [of XmlElement]
  by (auto simp: extensionForDataType_eq typeExtensions_eq DataTypeForExtension_eq
      getProperty_def)

lemma prop_no_alias: "getProperty DataTypeForExtension ''prop'' = Undefined"
  by (simp add: DataTypeForExtension_eq getProperty_def objectPrototypeKeys_def)

lemma ExtensionRegExp_match_appended:
  "ExtensionRegExp_match base = None \<Longrightarrow> CHR ''/'' \<notin> set exts \<Longrightarrow> CHR 0x5C \<notin> set exts \<Longrightarrow>
     ExtensionRegExp_match (base @ CHR ''.'' # exts) = Some exts"
  by (induction base) (auto split: if_splits)

lemma set_join: "set (join sep xs) \<subseteq> set sep \<union> \<Union> (set ` set xs)"
  by (induction sep xs rule: join.induct) auto

lemma pathForReadResult_variable_property:
  assumes "rr_value rr = Some v"
      and "referenceDescription_typeDefinition rr = VariableTypeDefinition \<and> pre = []
           \<or> referenceDescription_typeDefinition rr = PropertyTypeDefinition \<and> pre = [''prop'']"
  shows "pathForReadResult T rr =
           Inr (filePath (nodeId rr) @ CHR ''.'' #
                  join ''.'' (pre @ extensionForDataType (S_dataType v)
                                # arrayExtensions (S_arrayType v)))"
  using assms
  by (cases "S_arrayType v")
     (auto simp: pathForReadResult_def Let_def VariableTypeDefinition_def
        PropertyTypeDefinition_def arrayExtensions_def)

lemma initialExtensions_path:
  assumes base: "ExtensionRegExp_match base = None"
      and dir: "CHR ''.'' \<notin> set dir"
      and pre: "pre = [] \<or> pre = [''prop'']"
  shows "initialExtensions
           (newFile (base @ CHR ''.'' #
                       join ''.'' (pre @ extensionForDataType dt # arrayExtensions a)) dir c)
         = pre @ extensionForDataType dt # arrayExtensions a"
proof -
  let ?toks = "pre @ extensionForDataType dt # arrayExtensions a"
  have toks: "\<forall>x \<in> set ?toks. CHR ''.'' \<notin> set x \<and> CHR ''/'' \<notin> set x \<and> CHR 0x5C \<notin> set x"
    using pre extension_chars [of dt] by (cases a) (auto simp: arrayExtensions_def)
  have "set (join ''.'' ?toks) \<subseteq> set ''.'' \<union> \<Union> (set ` set ?toks)" by (rule set_join)
  then have noslash: "CHR ''/'' \<notin> set (join ''.'' ?toks)" "CHR 0x5C \<notin> set (join ''.'' ?toks)"
    using toks by auto
  have m: "ExtensionRegExp_match (base @ CHR ''.'' # join ''.'' ?toks) = Some (join ''.'' ?toks)"
    using base noslash by (rule ExtensionRegExp_match_appended)
  have s: "String_split (CHR ''.'') (join ''.'' ?toks) = ?toks"
    using toks by (intro String_split_join) auto
  show ?thesis
    using dir by (simp add: initialExtensions_def Let_def m s String_split_no_separator)
qed

lemma ifLast_Cons2:
  "ifLastExtensionMatches m fn (x # y # ys, f) =
     (case ifLastExtensionMatches m fn (y # ys, f) of (zs, g) \<Rightarrow> (x # zs, g))"
  by (simp add: ifLastExtensionMatches_def)

lemma steps_path:
  assumes init: "initialExtensions f = pre @ extensionForDataType dt # arrayExtensions a"
      and pre: "pre = [] \<or> pre = [''prop'']"
  shows "arrayAndDataTypeSteps f
           = (pre, f\<lparr>cached_dataType := Some (EnumItem dt), cached_arrayType := Some a\<rparr>)"
proof -
  let ?e = "extensionForDataType dt"
  let ?g = "f\<lparr>cached_arrayType := Some a\<rparr>"
  have ch: "?e \<noteq> ''array''" "?e \<noteq> ''matrix''"
    using extension_chars [of dt] by simp_all
  have s2: "ifLastExtensionMatches (\<lambda>ext. ext = ''matrix'')
                 (\<lambda>ext file. file\<lparr>cached_arrayType := Some Matrix\<rparr>)
              (ifLastExtensionMatches (\<lambda>ext. ext = ''array'')
                 (\<lambda>ext file. file\<lparr>cached_arrayType := Some Array\<rparr>)
                 (pre @ ?e # arrayExtensions a, f\<lparr>cached_arrayType := Some Scalar\<rparr>))
            = (pre @ [?e], ?g)"
    using pre ch by (cases a) (auto simp: arrayExtensions_def ifLast_Cons2)
  have s4: "ifLastExtensionMatches
           (\<lambda>ext. case getProperty DataTypeForExtension ext of
                     Own name \<Rightarrow> name \<noteq> [] | Inherited \<Rightarrow> True | Undefined \<Rightarrow> False)
           (\<lambda>ext file. file\<lparr>cached_dataType :=
              (case getProperty DataTypeForExtension ext of
                 Own name \<Rightarrow> DataType_get name
               | _ \<Rightarrow> None)\<rparr>)
           (ifLastExtensionMatches (\<lambda>ext. ext \<in> set typeExtensions)
                 (\<lambda>ext file. file\<lparr>cached_dataType :=
                    (case indexOf typeExtensions ext of
                       Some i \<Rightarrow> DataType_get (types ! i)
                     | None \<Rightarrow> None)\<rparr>) (pre @ [?e], ?g))
          = (pre, ?g\<lparr>cached_dataType := Some (EnumItem dt)\<rparr>)"
  proof (cases "dt = Boolean \<or> dt = XmlElement")
    case True
    from alias_lookup [OF True] obtain name where
      n: "?e \<notin> set typeExtensions" "getProperty DataTypeForExtension ?e = Own name"
         "name \<noteq> []" "DataType_get name = Some (EnumItem dt)"
      by blast
    show ?thesis using n by simp
  next
    case False
    then have t: "?e \<in> set typeExtensions"
         "(case indexOf typeExtensions ?e of
          Some i \<Rightarrow> DataType_get (types ! i) | None \<Rightarrow> None) = Some (EnumItem dt)"
      using typeExtension_lookup [of dt] by simp_all
    have "pre = [] \<or> pre = [] @ [''prop'']" using pre by simp
    then show ?thesis
      using t by (auto simp: prop_no_alias simp del: append_Nil)
  qed
  show ?thesis
    unfolding arrayAndDataTypeSteps_def Let_def init s2 s4 by simp
qed

lemma getMetadata_property:
  assumes "arrayAndDataTypeSteps f = ([''prop''], g)" and "cached_dataType g \<noteq> None"
  shows "getMetadata T f = Inr (g\<lparr>cached_typeDefinition := Some PropertyTypeDefinition\<rparr>)"
proof -
  obtain d where "cached_dataType g = Some d" using assms(2) by auto
  then show ?thesis using assms(1) by (simp add: getMetadata_def Let_def complete_def)
qed

lemma variable_property_roundtrip:
  assumes v: "rr_value rr = Some v"
      and td: "referenceDescription_typeDefinition rr = VariableTypeDefinition
               \<or> referenceDescription_typeDefinition rr = PropertyTypeDefinition"
      and base: "ExtensionRegExp_match (filePath (nodeId rr)) = None"
      and dir: "CHR ''.'' \<notin> set dir"
  shows "\<exists>path g. pathForReadResult T rr = Inr path
           \<and> getMetadata T (newFile path dir c) = Inr g
           \<and> cached_dataType g = Some (EnumItem (S_dataType v))
           \<and> cached_arrayType g = Some (S_arrayType v)
           \<and> cached_typeDefinition g = Some (referenceDescription_typeDefinition rr)"
proof -
  define pre where
    "pre = (if referenceDescription_typeDefinition rr = VariableTypeDefinition then []
            else [''prop''])"
  define path where
    "path = filePath (nodeId rr) @ CHR ''.'' #
              join ''.'' (pre @ extensionForDataType (S_dataType v) # arrayExtensions (S_arrayType v))"
  have pre: "pre = [] \<or> pre = [''prop'']" by (simp add: pre_def)
  have td': "referenceDescription_typeDefinition rr = VariableTypeDefinition \<and> pre = []
           \<or> referenceDescription_typeDefinition rr = PropertyTypeDefinition \<and> pre = [''prop'']"
    using td by (auto simp: pre_def)
  have p: "pathForReadResult T rr = Inr path"
    unfolding path_def using v td' by (rule pathForReadResult_variable_property)
  have init: "initialExtensions (newFile path dir c)
      = pre @ extensionForDataType (S_dataType v) # arrayExtensions (S_arrayType v)"
    unfolding path_def using base dir pre by (rule initialExtensions_path)
  have steps: "arrayAndDataTypeSteps (newFile path dir c)
      = (pre, (newFile path dir c)\<lparr>cached_dataType := Some (EnumItem (S_dataType v)),
                                     cached_arrayType := Some (S_arrayType v)\<rparr>)"
    using init pre by (rule steps_path)
  have meta: "getMetadata T (newFile path dir c)
      = Inr ((newFile path dir c)\<lparr>cached_dataType := Some (EnumItem (S_dataType v)),
                              cached_arrayType := Some (S_arrayType v),
                              cached_typeDefinition := Some (referenceDescription_typeDefinition rr)\<rparr>)"
  proof (cases "pre = []")
    case True
    then have "referenceDescription_typeDefinition rr = VariableTypeDefinition"
      using td' by auto
    then show ?thesis
      using True by (simp add: getMetadata_no_tokens_left steps)
  next
    case False
    then have "referenceDescription_typeDefinition rr = PropertyTypeDefinition" "pre = [''prop'']"
      using td' by auto
    then show ?thesis
      using getMetadata_property [of "newFile path dir c" _ T] steps by simp
  qed
  show ?thesis using p by (simp add: meta)
qed

lemma atviseTypeStep_found: "atviseTypeStep T ys (Inr (True, g)) k = Inr (True, g)"
  by (simp add: atviseTypeStep_def)

lemma atviseTypeStep_miss:
  "k \<notin> set ys \<Longrightarrow> atviseTypeStep T ys (Inr (b, g)) k = Inr (b, g)"
  by (simp add: atviseTypeStep_def)

lemma atviseTypeStep_hit:
  "k \<in> set ys \<Longrightarrow> getProperty (AtviseTypesByIdentifier T) k = Own t \<Longrightarrow>
     atviseTypeStep T ys (Inr (False, g)) k
       = Inr (True, g\<lparr>cached_typeDefinition := Some (typeDefinition t),
                       cached_dataType := Some (EnumItem (dataType t))\<rparr>)"
  by (simp add: atviseTypeStep_def)

lemma foldl_atviseTypeStep_found:
  "foldl (atviseTypeStep T ys) (Inr (True, g)) ks = Inr (True, g)"
  by (induction ks) (simp_all add: atviseTypeStep_found)

lemma foldl_atviseTypeStep_find:
  "find (\<lambda>k. k \<in> set ys) ks = Some k \<Longrightarrow> getProperty (AtviseTypesByIdentifier T) k = Own t \<Longrightarrow>
     foldl (atviseTypeStep T ys) (Inr (False, g)) ks
       = Inr (True, g\<lparr>cached_typeDefinition := Some (typeDefinition t),
                       cached_dataType := Some (EnumItem (dataType t))\<rparr>)"
proof (induction ks)
  case Nil
  then show ?case by simp
next
  case (Cons x ks)
  show ?case
  proof (cases "x \<in> set ys")
    case True
    then have "x = k" using Cons.prems(1) by simp
    then show ?thesis
      using True Cons.prems(2) by (simp add: atviseTypeStep_hit foldl_atviseTypeStep_found)
  next
    case False
    then show ?thesis using Cons by (simp add: atviseTypeStep_miss)
  qed
qed

lemma find_narrow:
  "find P xs = Some x \<Longrightarrow> Q x \<Longrightarrow> (\<And>y. Q y \<Longrightarrow> P y) \<Longrightarrow> find Q xs = Some x"
  by (induction xs) (auto split: if_splits)

lemma getMetadata_scan:
  assumes s4: "arrayAndDataTypeSteps f = (ys, g)"
      and ys: "ys \<noteq> []" "last ys \<noteq> ''prop''"
      and td: "cached_typeDefinition g = None"
      and k: "find (\<lambda>k. k \<in> set ys) (Object_keys (AtviseTypesByIdentifier T)) = Some k"
      and t: "getProperty (AtviseTypesByIdentifier T) k = Own t"
  shows "getMetadata T f =
           Inr (g\<lparr>cached_typeDefinition := Some (typeDefinition t),
                   cached_dataType := Some (EnumItem (dataType t))\<rparr>)"
  using ys td
  by (simp add: getMetadata_def s4 Let_def complete_def ifLastExtensionMatches_def
      foldl_atviseTypeStep_find [OF k t])

lemma ifLast_snoc2:
  "ifLastExtensionMatches m fn (xs @ [x, e], f) =
     (if m e then (xs @ [x], fn e f) else (xs @ [x, e], f))"
  using ifLast_snoc [of m fn "xs @ [x]" e f] by simp

lemma array_steps:
  assumes "e \<noteq> ''array''" "e \<noteq> ''matrix''"
  shows "ifLastExtensionMatches (\<lambda>ext. ext = ''matrix'')
                 (\<lambda>ext file. file\<lparr>cached_arrayType := Some Matrix\<rparr>)
              (ifLastExtensionMatches (\<lambda>ext. ext = ''array'')
                 (\<lambda>ext file. file\<lparr>cached_arrayType := Some Array\<rparr>)
                 (pre @ e # arrayExtensions a, f\<lparr>cached_arrayType := Some Scalar\<rparr>))
            = (pre @ [e], f\<lparr>cached_arrayType := Some a\<rparr>)"
  using assms by (cases a) (simp_all add: arrayExtensions_def ifLast_snoc2)

lemma initialExtensions_tokens:
  assumes base: "ExtensionRegExp_match base = None"
      and dir: "CHR ''.'' \<notin> set dir"
      and toks: "toks \<noteq> []" "\<forall>x \<in> set toks. isPlainExtension x"
  shows "initialExtensions (newFile (base @ CHR ''.'' # join ''.'' toks) dir c) = toks"
proof -
  have "set (join ''.'' toks) \<subseteq> set ''.'' \<union> \<Union> (set ` set toks)" by (rule set_join)
  then have noslash: "CHR ''/'' \<notin> set (join ''.'' toks)" "CHR 0x5C \<notin> set (join ''.'' toks)"
    using toks(2) by (auto simp: isPlainExtension_def)
  have m: "ExtensionRegExp_match (base @ CHR ''.'' # join ''.'' toks) = Some (join ''.'' toks)"
    using base noslash by (rule ExtensionRegExp_match_appended)
  have s: "String_split (CHR ''.'') (join ''.'' toks) = toks"
    using toks by (intro String_split_join) (auto simp: isPlainExtension_def)
  show ?thesis
    using dir by (simp add: initialExtensions_def Let_def m s String_split_no_separator)
qed

lemma isPlainExtension_markers:
  "isPlainExtension (extensionForDataType dt)" "\<forall>x \<in> set (arrayExtensions a). isPlainExtension x"
  "isPlainExtension ''prop''"
  using extension_chars [of dt]
  by (cases a; simp add: isPlainExtension_def arrayExtensions_def)+

lemma getProperty_Undefined:
  "k \<notin> set (map fst obj) \<Longrightarrow> k \<notin> set objectPrototypeKeys \<Longrightarrow> getProperty obj k = Undefined"
proof -
  assume a: "k \<notin> set (map fst obj)" "k \<notin> set objectPrototypeKeys"
  have "map_of (rev obj) k = None"
  proof (cases "map_of (rev obj) k")
    case None
    then show ?thesis .
  next
    case (Some x)
    then have "(k, x) \<in> set (rev obj)" by (rule map_of_SomeD)
    then have "k \<in> set (map fst obj)" by force
    then show ?thesis using a(1) by simp
  qed
  then show ?thesis using a(2) by (simp add: getProperty_def)
qed

lemma dataType_steps_registered:
  assumes ident: "ident \<notin> set typeExtensions"
                 "getProperty DataTypeForExtension ident = Undefined"
      and g: "cached_typeDefinition g = None" "cached_arrayType g = Some a"
  shows "\<exists>ys h. ifLastExtensionMatches
           (\<lambda>ext. case getProperty DataTypeForExtension ext of
                     Own name \<Rightarrow> name \<noteq> [] | Inherited \<Rightarrow> True | Undefined \<Rightarrow> False)
           (\<lambda>ext file. file\<lparr>cached_dataType :=
              (case getProperty DataTypeForExtension ext of
                 Own name \<Rightarrow> DataType_get name
               | _ \<Rightarrow> None)\<rparr>)
           (ifLastExtensionMatches (\<lambda>ext. ext \<in> set typeExtensions)
                 (\<lambda>ext file. file\<lparr>cached_dataType :=
                    (case indexOf typeExtensions ext of
                       Some i \<Rightarrow> DataType_get (types ! i)
                     | None \<Rightarrow> None)\<rparr>) ([ident, ext], g)) = (ys, h)
         \<and> (ys = [ident] \<or> ys = [ident, ext])
         \<and> cached_typeDefinition h = None \<and> cached_arrayType h = Some a"
  using assms by (auto simp: ifLastExtensionMatches_def split: property.splits)

lemma registered_roundtrip:
  assumes v: "rr_value rr = Some v"
      and reg: "isRegisteredFor T (referenceDescription_typeDefinition rr) (S_dataType v)"
      and base: "ExtensionRegExp_match (filePath (nodeId rr)) = None"
      and dir: "CHR ''.'' \<notin> set dir"
  shows "\<exists>path g. pathForReadResult T rr = Inr path
           \<and> getMetadata T (newFile path dir c) = Inr g
           \<and> cached_dataType g = Some (EnumItem (S_dataType v))
           \<and> cached_arrayType g = Some (S_arrayType v)
           \<and> cached_typeDefinition g = Some (referenceDescription_typeDefinition rr)"
proof -
  let ?td = "referenceDescription_typeDefinition rr"
  let ?dt = "S_dataType v"
  let ?a = "S_arrayType v"
  let ?keys = "Object_keys (AtviseTypesByIdentifier T)"
  from reg obtain t where
    own: "getProperty (AtviseTypesByValue T) (propertyKey (idvalue ?td)) = Own t"
    by (auto simp: isRegisteredFor_def split: property.splits)
  define ident where "ident = identifier' t"
  define ext where
    "ext = (case fileExtension t of
              Some e \<Rightarrow> if e \<noteq> [] then e else extensionForDataType ?dt
            | None \<Rightarrow> extensionForDataType ?dt)"
  have r: "idvalue ?td \<noteq> NumId 62" "idvalue ?td \<noteq> NumId 68"
      "typeDefinition t = ?td" "dataType t = ?dt" "\<not> keepExtension t"
      "isPlainExtension ident" "isPlainExtension ext"
      "ident \<noteq> ''array''" "ident \<noteq> ''matrix''" "ident \<noteq> ''prop''"
      "ident \<notin> set typeExtensions" "ident \<notin> set (map fst DataTypeForExtension)"
      "ident \<notin> set objectPrototypeKeys"
      "ext \<noteq> ''array''" "ext \<noteq> ''matrix''" "ext \<noteq> ''prop''"
      "getProperty (AtviseTypesByIdentifier T) ident = Own t"
      "find (\<lambda>k. k = ident \<or> k = ext) ?keys = Some ident"
    using reg own unfolding isRegisteredFor_def ident_def ext_def
    by (simp_all add: Let_def)
  define path where
    "path = filePath (nodeId rr) @ CHR ''.'' # join ''.'' ([ident] @ ext # arrayExtensions ?a)"
  have p: "pathForReadResult T rr = Inr path"
    using v r(1,2,5) own unfolding path_def ident_def ext_def
    by (cases ?a)
       (auto simp: pathForReadResult_def Let_def VariableTypeDefinition_def
          PropertyTypeDefinition_def arrayExtensions_def split: option.splits)
  have plain: "\<forall>x \<in> set ([ident] @ ext # arrayExtensions ?a). isPlainExtension x"
    using r(6,7) isPlainExtension_markers(2) [of ?a] by auto
  have init: "initialExtensions (newFile path dir c) = [ident] @ ext # arrayExtensions ?a"
    unfolding path_def using base dir _ plain by (rule initialExtensions_tokens) simp
  have undef: "getProperty DataTypeForExtension ident = Undefined"
    using r(12,13) by (rule getProperty_Undefined)
  obtain ys h where
    s4: "arrayAndDataTypeSteps (newFile path dir c) = (ys, h)"
    and ys: "ys = [ident] \<or> ys = [ident, ext]"
    and h: "cached_typeDefinition h = None" "cached_arrayType h = Some ?a"
    using dataType_steps_registered
            [OF r(11) undef, of "(newFile path dir c)\<lparr>cached_arrayType := Some ?a\<rparr>" ?a ext]
    unfolding arrayAndDataTypeSteps_def Let_def init array_steps [OF r(14,15)]
    by auto
  have last: "ys \<noteq> []" "last ys \<noteq> ''prop''"
    using ys r(10,16) by auto
  have f: "find (\<lambda>k. k \<in> set ys) ?keys = Some ident"
  proof (cases "ys = [ident]")
    case True
    have "find (\<lambda>k. k = ident) ?keys = Some ident"
      using r(18) by (rule find_narrow) simp_all
    then show ?thesis using True by simp
  next
    case False
    then have "ys = [ident, ext]" using ys by simp
    then show ?thesis using r(18) by simp
  qed
  have meta: "getMetadata T (newFile path dir c) =
      Inr (h\<lparr>cached_typeDefinition := Some (typeDefinition t),
             cached_dataType := Some (EnumItem (dataType t))\<rparr>)"
    using s4 last h(1) f r(17) by (rule getMetadata_scan)
  show ?thesis using p h(2) r(3,4) by (simp add: meta)
qed

lemma example_registered:
  "isRegisteredFor exampleTypes
     \<lparr>identifierType = STRING, idvalue = StrId ''VariableTypes.ATVISE.Display'', namespace = 1\<rparr>
     XmlElement"
  by (simp add: isRegisteredFor_def exampleTypes_def AtviseTypesByValue_def
      AtviseTypesByIdentifier_def getProperty_def Let_def extensionForDataType_eq
      isPlainExtension_def typeExtensions_eq DataTypeForExtension_eq objectPrototypeKeys_def
      Object_keys_def isArrayIndex_def isDigit_def decimalDigits_def)

text \<open>
  Claim C2, as amended. For the type definitions of a variable and of a property with
  every data type, and for a type definition of the table of atvise types that is read back
  from its path (see \<open>isRegisteredFor\<close>) with the data type of its entry; for every array
  type, and for every node whose file path has no dot in its last segment: the path that
  \<^verbatim>\<open>pathForReadResult\<close> builds, in a directory whose name has no dot, gives back by extension
  inference the data type, the array type and the type definition of the read result.
\<close>

theorem path_roundtrip:
  assumes v: "rr_value rr = Some v"
      and td: "referenceDescription_typeDefinition rr = VariableTypeDefinition
               \<or> referenceDescription_typeDefinition rr = PropertyTypeDefinition
               \<or> isRegisteredFor T (referenceDescription_typeDefinition rr) (S_dataType v)"
      and base: "ExtensionRegExp_match (filePath (nodeId rr)) = None"
      and dir: "CHR ''.'' \<notin> set dir"
  shows "\<exists>path g. pathForReadResult T rr = Inr path
           \<and> getMetadata T (newFile path dir c) = Inr g
           \<and> cached_dataType g = Some (EnumItem (S_dataType v))
           \<and> cached_arrayType g = Some (S_arrayType v)
           \<and> cached_typeDefinition g = Some (referenceDescription_typeDefinition rr)"
proof (cases "isRegisteredFor T (referenceDescription_typeDefinition rr) (S_dataType v)")
  case True
  with v show ?thesis using base dir by (rule registered_roundtrip)
next
  case False
  then have "referenceDescription_typeDefinition rr = VariableTypeDefinition
             \<or> referenceDescription_typeDefinition rr = PropertyTypeDefinition"
    using td by simp
  with v show ?thesis using base dir by (rule variable_property_roundtrip)
qed

theorem path_roundtrip_witness:
  "(\<exists>path g. pathForReadResult exampleTypes
             \<lparr>nodeId = ''AGENT.DISPLAYS.Main'',
              rr_value = Some \<lparr>value' = JString ''on'', S_dataType = String, S_arrayType = Array\<rparr>,
              referenceDescription_typeDefinition = PropertyTypeDefinition, mtime = None\<rparr>
            = Inr path
     \<and> getMetadata exampleTypes (newFile path ''AGENT/DISPLAYS'' None) = Inr g
     \<and> cached_dataType g = Some (EnumItem String)
     \<and> cached_arrayType g = Some Array
     \<and> cached_typeDefinition g = Some PropertyTypeDefinition)
   \<and> (\<exists>path g. pathForReadResult exampleTypes
             \<lparr>nodeId = ''AGENT.DISPLAYS.Main'',
              rr_value = Some \<lparr>value' = JString ''<svg/>'', S_dataType = XmlElement,
                                S_arrayType = Scalar\<rparr>,
              referenceDescription_typeDefinition =
                \<lparr>identifierType = STRING, idvalue = StrId ''VariableTypes.ATVISE.Display'',
                 namespace = 1\<rparr>,
              mtime = None\<rparr>
            = Inr path
     \<and> getMetadata exampleTypes (newFile path ''AGENT/DISPLAYS'' None) = Inr g
     \<and> cached_dataType g = Some (EnumItem XmlElement)
     \<and> cached_arrayType g = Some Scalar
     \<and> cached_typeDefinition g
         = Some \<lparr>identifierType = STRING, idvalue = StrId ''VariableTypes.ATVISE.Display'',
                  namespace = 1\<rparr>)"
  using path_roundtrip [of "\<lparr>nodeId = ''AGENT.DISPLAYS.Main'',
              rr_value = Some \<lparr>value' = JString ''on'', S_dataType = String, S_arrayType = Array\<rparr>,
              referenceDescription_typeDefinition = PropertyTypeDefinition, mtime = None\<rparr>"
          "\<lparr>value' = JString ''on'', S_dataType = String, S_arrayType = Array\<rparr>"
          exampleTypes "''AGENT/DISPLAYS''" None]
    path_roundtrip [of "\<lparr>nodeId = ''AGENT.DISPLAYS.Main'',
              rr_value = Some \<lparr>value' = JString ''<svg/>'', S_dataType = XmlElement,
                                S_arrayType = Scalar\<rparr>,
              referenceDescription_typeDefinition =
                \<lparr>identifierType = STRING, idvalue = StrId ''VariableTypes.ATVISE.Display'',
                 namespace = 1\<rparr>,
              mtime = None\<rparr>"
          "\<lparr>value' = JString ''<svg/>'', S_dataType = XmlElement, S_arrayType = Scalar\<rparr>"
          exampleTypes "''AGENT/DISPLAYS''" None]
    example_registered
  by (simp add: filePath_def)

text \<open>
  A Boolean variable whose type definition is the numeric node id 63, which is neither the
  variable nor the property type definition nor in the table: its path gets the
  extensions \<^verbatim>\<open>.var.bool\<close>, and inference on that path falls back to ByteString and the generic
  resource type.
\<close>

lemma nat_toString_63: "nat_toString 63 = ''63''"
  by (simp add: nat_toString.simps digitChar_def decimalDigits_def)

theorem path_roundtrip_counterexample:
  "pathForReadResult exampleTypes
     \<lparr>nodeId = ''AGENT.DISPLAYS.Main'',
      rr_value = Some \<lparr>value' = JBoolean False, S_dataType = Boolean, S_arrayType = Scalar\<rparr>,
      referenceDescription_typeDefinition =
        \<lparr>identifierType = NUMERIC, idvalue = NumId 63, namespace = 0\<rparr>,
      mtime = None\<rparr>
     = Inr ''AGENT/DISPLAYS/Main.var.bool''
   \<and> path_dirname ''AGENT/DISPLAYS/Main.var.bool'' = ''AGENT/DISPLAYS''
   \<and> getMetadata exampleTypes (newFile ''AGENT/DISPLAYS/Main.var.bool'' ''AGENT/DISPLAYS'' None)
       = Inr ((newFile ''AGENT/DISPLAYS/Main.var.bool'' ''AGENT/DISPLAYS'' None)
                \<lparr>cached_dataType := Some (EnumItem ByteString), cached_arrayType := Some Scalar,
                 cached_typeDefinition := Some OctetStreamTypeDefinition\<rparr>)
   \<and> Some (EnumItem ByteString) \<noteq> Some (EnumItem Boolean)
   \<and> Some OctetStreamTypeDefinition
       \<noteq> Some \<lparr>identifierType = NUMERIC, idvalue = NumId 63, namespace = 0\<rparr>"
proof -
  have p: "pathForReadResult exampleTypes
     \<lparr>nodeId = ''AGENT.DISPLAYS.Main'',
      rr_value = Some \<lparr>value' = JBoolean False, S_dataType = Boolean, S_arrayType = Scalar\<rparr>,
      referenceDescription_typeDefinition =
        \<lparr>identifierType = NUMERIC, idvalue = NumId 63, namespace = 0\<rparr>,
      mtime = None\<rparr>
     = Inr ''AGENT/DISPLAYS/Main.var.bool''"
    by (simp add: pathForReadResult_def Let_def VariableTypeDefinition_def
        PropertyTypeDefinition_def nat_toString_63 getProperty_def AtviseTypesByValue_def
        exampleTypes_def objectPrototypeKeys_def filePath_def extensionForDataType_eq)
  have d: "path_dirname ''AGENT/DISPLAYS/Main.var.bool'' = ''AGENT/DISPLAYS''"
    by (simp add: path_dirname_def Let_def)
  have init: "initialExtensions (newFile ''AGENT/DISPLAYS/Main.var.bool'' ''AGENT/DISPLAYS'' None)
      = [''var'', ''bool'']"
    by (simp add: initialExtensions_def Let_def)
  have steps: "arrayAndDataTypeSteps (newFile ''AGENT/DISPLAYS/Main.var.bool'' ''AGENT/DISPLAYS'' None)
      = ([''var''], (newFile ''AGENT/DISPLAYS/Main.var.bool'' ''AGENT/DISPLAYS'' None)
                      \<lparr>cached_dataType := Some (EnumItem Boolean),
                       cached_arrayType := Some Scalar\<rparr>)"
    by (simp add: arrayAndDataTypeSteps_def init Let_def ifLast_Cons2 typeExtensions_eq
        DataTypeForExtension_eq getProperty_def objectPrototypeKeys_def DataType_get_Boolean)
  have meta: "getMetadata exampleTypes (newFile ''AGENT/DISPLAYS/Main.var.bool'' ''AGENT/DISPLAYS'' None)
      = Inr ((newFile ''AGENT/DISPLAYS/Main.var.bool'' ''AGENT/DISPLAYS'' None)
           \<lparr>cached_dataType := Some (EnumItem ByteString), cached_arrayType := Some Scalar,
            cached_typeDefinition := Some OctetStreamTypeDefinition\<rparr>)"
    by (simp add: getMetadata_def steps Let_def complete_def Object_keys_def
        AtviseTypesByIdentifier_def exampleTypes_def isArrayIndex_def isDigit_def
        decimalDigits_def atviseTypeStep_def)
  show ?thesis
    by (simp add: p d meta) (simp add: OctetStreamTypeDefinition_def)
qed

section \<open>Creating a file from a read result\<close>

lemma fromReadResult_no_value: "rr_value rr = None \<Longrightarrow> fromReadResult rt T h rr = Inl NoValue"
  by (simp add: fromReadResult_def)

lemma fromReadResult_scalar:
  assumes v: "rr_value rr = Some v"
      and p: "pathForReadResult T rr = Inr path"
      and e: "encodeValue rt v (S_dataType v) = Inr c"
      and m: "mtime rr = None"
  shows "fromReadResult rt T h rr =
           Inr (\<lparr>relative = path, dirname = path_dirname path, contents = Some c,
                 stat_mtime = None, cached_dataType = Some (EnumItem (S_dataType v)),
                 cached_arrayType = Some (S_arrayType v),
                 cached_typeDefinition = Some (referenceDescription_typeDefinition rr)\<rparr>, h)"
  by (simp add: fromReadResult_def v p e m)

text \<open>
  Claim C8 says that creating a file from a read result fails exactly when the read result
  has no value. With a value that is an array of dates (data type DateTime, array type
  Array) the path is built, but the encoder of DateTime calls \<^verbatim>\<open>getTime\<close> on the array:
  the creation fails with a TypeError although the value is there.
\<close>

theorem fromReadResult_date_array:
  "rr_value \<lparr>nodeId = ''AGENT.DISPLAYS.Main'',
             rr_value = Some \<lparr>value' = JArray [JDate 0], S_dataType = DateTime,
                               S_arrayType = Array\<rparr>,
             referenceDescription_typeDefinition = VariableTypeDefinition,
             mtime = None\<rparr> \<noteq> None
   \<and> pathForReadResult T
         \<lparr>nodeId = ''AGENT.DISPLAYS.Main'',
          rr_value = Some \<lparr>value' = JArray [JDate 0], S_dataType = DateTime,
                            S_arrayType = Array\<rparr>,
          referenceDescription_typeDefinition = VariableTypeDefinition,
          mtime = None\<rparr> = Inr ''AGENT/DISPLAYS/Main.datetime.array''
   \<and> fromReadResult rt T h
         \<lparr>nodeId = ''AGENT.DISPLAYS.Main'',
          rr_value = Some \<lparr>value' = JArray [JDate 0], S_dataType = DateTime,
                            S_arrayType = Array\<rparr>,
          referenceDescription_typeDefinition = VariableTypeDefinition,
          mtime = None\<rparr> = Inl TypeError"
proof -
  have p: "pathForReadResult T
         \<lparr>nodeId = ''AGENT.DISPLAYS.Main'',
          rr_value = Some \<lparr>value' = JArray [JDate 0], S_dataType = DateTime,
                            S_arrayType = Array\<rparr>,
          referenceDescription_typeDefinition = VariableTypeDefinition,
          mtime = None\<rparr> = Inr ''AGENT/DISPLAYS/Main.datetime.array''"
    by (simp add: pathForReadResult_def Let_def filePath_def extensionForDataType_eq
        toLowerCase_def)
  show ?thesis
    by (simp add: p fromReadResult_def encodeValue_def)
qed

end
